theory Spec2Isabelle
  imports Main "HOL-Library.Word" "HOL-Library.Stream"
begin

unbundle bit_operations_syntax

section \<open>Data model\<close>

text \<open>
  The library \<^verbatim>\<open>lib/secure-env.js\<close> and the command-line front end
  \<^verbatim>\<open>bin/env-secure.js\<close> work on JavaScript strings, Node buffers and files.

  \<^item> A JavaScript string is a \<open>string\<close>: a list of code units, here the code units
    below 256 (one \<open>char\<close> each).
  \<^item> A Node \<open>Buffer\<close> is a list of bytes.
  \<^item> The file system is a map from a path to the text of the file at that path.
  \<^item> \<open>crypto.randomBytes\<close> reads an entropy source, a stream of bytes that is passed
    through every function that draws from it.
  \<^item> A thrown \<open>Error\<close> is the left summand of the result.
\<close>

type_synonym byte = "8 word"
type_synonym buffer = "byte list"
type_synonym path = string
type_synonym filesystem = "path \<rightharpoonup> string"
type_synonym entropy = "byte stream"

text \<open>
  The second argument of \<open>encryptString\<close> and \<open>decryptString\<close> is a string when the
  caller passes the secret key and a Buffer when it passes the key derived from the
  passphrase.
\<close>

datatype secret = Str string | Buf buffer

text \<open>JavaScript's \<open>!x\<close>: the empty string is falsy, every Buffer is truthy.\<close>

fun falsy :: "secret \<Rightarrow> bool" where
  "falsy (Str s) = (s = [])"
| "falsy (Buf b) = False"

text \<open>What the functions of Node's \<open>crypto\<close> module throw.\<close>

datatype crypto_error = InvalidKeyLength | InvalidIV | WrongFinalBlockLength | BadDecrypt

text \<open>
  The errors of the library, one constructor for each \<open>throw\<close> of the source, and one
  for an error that a call into \<open>crypto\<close> throws.
\<close>

datatype error =
    PassphraseEmpty            \<comment> \<open>Passphrase cannot be empty.\<close>
  | EncryptArgsRequired        \<comment> \<open>Text and secret key are required for encryption.\<close>
  | DecryptArgsRequired        \<comment> \<open>Encrypted text and secret key are required for decryption.\<close>
  | InvalidEncryptedText       \<comment> \<open>Invalid encrypted text format. Expected 'iv:encryptedText'.\<close>
  | FileDoesNotExist path      \<comment> \<open>File ... does not exist.\<close>
  | SecretKeyRequired          \<comment> \<open>Secret key is required for encryption.\<close>
  | FileIsEmpty path           \<comment> \<open>File ... is empty.\<close>
  | SecretKeyNotFound          \<comment> \<open>Encrypted file is invalid: Secret key not found.\<close>
  | CryptoFailure crypto_error \<comment> \<open>thrown inside \<open>crypto\<close>\<close>

text \<open>
  Node's \<open>crypto\<close> module is not part of the repository; the functions of it that the
  source calls are parameters of the model.

  \<^item> \<open>scryptSync password salt keylen\<close> is \<open>crypto.scryptSync\<close>.
  \<^item> \<open>cipherHex algorithm key iv text\<close> is
    \<open>c = crypto.createCipheriv(algorithm, key, iv)\<close> followed by
    \<open>c.update(text, "utf-8", "hex") + c.final("hex")\<close>.
  \<^item> \<open>decipherHex algorithm key iv encrypted\<close> is
    \<open>d = crypto.createDecipheriv(algorithm, key, iv)\<close> followed by
    \<open>d.update(encrypted, "hex", "utf-8") + d.final("utf-8")\<close>.
\<close>

record crypto =
  scryptSync :: "secret \<Rightarrow> string \<Rightarrow> nat \<Rightarrow> buffer"
  cipherHex :: "string \<Rightarrow> buffer \<Rightarrow> buffer \<Rightarrow> string \<Rightarrow> crypto_error + string"
  decipherHex :: "string \<Rightarrow> buffer \<Rightarrow> buffer \<Rightarrow> string \<Rightarrow> crypto_error + string"

definition randomBytes :: "nat \<Rightarrow> entropy \<Rightarrow> buffer \<times> entropy" where
  "randomBytes n rnd = (stake n rnd, sdrop n rnd)"

section \<open>Strings and buffers\<close>

definition NL :: char where
  "NL = CHR 0x0A"

text \<open>\<open>s.split(c)\<close> for a separator of one character: never the empty list.\<close>

fun splitOn :: "char \<Rightarrow> string \<Rightarrow> string list" where
  "splitOn c [] = [[]]"
| "splitOn c (x # xs) =
     (if x = c then [] # splitOn c xs
      else (case splitOn c xs of
              [] \<Rightarrow> [[x]]
            | p # ps \<Rightarrow> (x # p) # ps))"

text \<open>\<open>ls.join("\n")\<close>.\<close>

fun joinLines :: "string list \<Rightarrow> string" where
  "joinLines [] = []"
| "joinLines [l] = l"
| "joinLines (l # m # ls) = l @ NL # joinLines (m # ls)"

definition startsWith :: "string \<Rightarrow> string \<Rightarrow> bool" where
  "startsWith s p = (take (length p) s = p)"

text \<open>
  White space as \<open>String.prototype.trim\<close> reads it, among the code units below 256:
  tab, line feed, vertical tab, form feed, carriage return, space and no-break space.
\<close>

definition whiteSpace :: "char \<Rightarrow> bool" where
  "whiteSpace c = (c \<in> {CHR 0x09, CHR 0x0A, CHR 0x0B, CHR 0x0C, CHR 0x0D, CHR 0x20, CHR 0xA0})"

definition trim :: "string \<Rightarrow> string" where
  "trim s = rev (dropWhile whiteSpace (rev (dropWhile whiteSpace s)))"

text \<open>The line terminators that the \<open>.\<close> of a regular expression does not match.\<close>

definition lineTerminator :: "char \<Rightarrow> bool" where
  "lineTerminator c = (c = CHR 0x0A \<or> c = CHR 0x0D)"

text \<open>\<open>buf.toString("hex")\<close>: two lower-case digits for each byte.\<close>

definition hexDigit :: "nat \<Rightarrow> char" where
  "hexDigit n = ''0123456789abcdef'' ! n"

definition toHex :: "buffer \<Rightarrow> string" where
  "toHex b = concat (map (\<lambda>x. [hexDigit (unat x div 16), hexDigit (unat x mod 16)]) b)"

text \<open>
  \<open>Buffer.from(s, "hex")\<close>: digits of either case, two for each byte; decoding stops
  without an error at the first pair that is not two hexadecimal digits.
\<close>

definition hexValue :: "char \<Rightarrow> nat option" where
  "hexValue c =
     (let n = (of_char c :: nat) in
      if 48 \<le> n \<and> n \<le> 57 then Some (n - 48)
      else if 97 \<le> n \<and> n \<le> 102 then Some (n - 87)
      else if 65 \<le> n \<and> n \<le> 70 then Some (n - 55)
      else None)"

fun fromHex :: "string \<Rightarrow> buffer" where
  "fromHex (a # b # rest) =
     (case hexValue a of
        None \<Rightarrow> []
      | Some h \<Rightarrow>
          (case hexValue b of
             None \<Rightarrow> []
           | Some l \<Rightarrow> of_nat (16 * h + l) # fromHex rest))"
| "fromHex _ = []"

section \<open>lib/secure-env.js\<close>

definition algorithm :: string where
  "algorithm = ''aes-256-cbc''"

definition salt :: string where
  "salt = ''some-fixed-salt''"

definition keyLength :: nat where
  "keyLength = 32"

definition deriveKeyFromPassphrase :: "crypto \<Rightarrow> string \<Rightarrow> error + buffer" where
  "deriveKeyFromPassphrase C passphrase =
     (if passphrase = [] then Inl PassphraseEmpty
      else Inr (scryptSync C (Str passphrase) salt keyLength))"

definition encryptString ::
  "crypto \<Rightarrow> string \<Rightarrow> secret \<Rightarrow> entropy \<Rightarrow> error + (string \<times> entropy)" where
  "encryptString C text' secretKey rnd =
     (if text' = [] \<or> falsy secretKey then Inl EncryptArgsRequired
      else
        let key = scryptSync C secretKey salt keyLength;
            (iv, rnd') = randomBytes 16 rnd
        in case cipherHex C algorithm key iv text' of
             Inl e \<Rightarrow> Inl (CryptoFailure e)
           | Inr encrypted \<Rightarrow> Inr (toHex iv @ CHR '':'' # encrypted, rnd'))"

text \<open>
  The destructuring \<open>const [ivHex, encrypted] = encryptedText.split(":")\<close> takes the
  first two fields and drops the others; with one field only, \<open>encrypted\<close> is
  \<open>undefined\<close>, which is falsy.
\<close>

definition decryptString :: "crypto \<Rightarrow> string \<Rightarrow> secret \<Rightarrow> error + string" where
  "decryptString C encryptedText secretKey =
     (if encryptedText = [] \<or> falsy secretKey then Inl DecryptArgsRequired
      else
        (case splitOn CHR '':'' encryptedText of
           ivHex # encrypted # _ \<Rightarrow>
             if ivHex = [] \<or> encrypted = [] then Inl InvalidEncryptedText
             else
               let key = scryptSync C secretKey salt keyLength;
                   iv = fromHex ivHex
               in (case decipherHex C algorithm key iv encrypted of
                     Inl e \<Rightarrow> Inl (CryptoFailure e)
                   | Inr decrypted \<Rightarrow> Inr decrypted)
         | _ \<Rightarrow> Inl InvalidEncryptedText))"

text \<open>
  The match of \<^verbatim>\<open>/ENV_SECURE_KEY=(.+)/\<close>: the leftmost place where the label is
  followed by a character that is not a line terminator; the group runs to the next
  line terminator or to the end of the text. The result is the group.
\<close>

definition keyLabel :: string where
  "keyLabel = ''ENV_SECURE_KEY=''"

fun matchSecretKey :: "string \<Rightarrow> string option" where
  "matchSecretKey [] = None"
| "matchSecretKey (c # cs) =
     (let rest = drop (length keyLabel) (c # cs) in
      if startsWith (c # cs) keyLabel \<and> takeWhile (\<lambda>x. \<not> lineTerminator x) rest \<noteq> []
      then Some (takeWhile (\<lambda>x. \<not> lineTerminator x) rest)
      else matchSecretKey cs)"

text \<open>\<open>path.join(process.cwd(), ".env")\<close>: paths are resolved paths.\<close>

definition envFilePath :: path where
  "envFilePath = ''.env''"

definition getSecretKey :: "filesystem \<Rightarrow> string option" where
  "getSecretKey fs =
     (case fs envFilePath of
        None \<Rightarrow> None
      | Some envContent \<Rightarrow>
          (case matchSecretKey envContent of
             None \<Rightarrow> None
           | Some g \<Rightarrow> if g = [] then None else Some (trim g)))"

text \<open>The test of both loops: a line that is copied, not encrypted or decrypted.\<close>

definition passedThrough :: "string \<Rightarrow> bool" where
  "passedThrough line = (trim line = [] \<or> startsWith line ''#'')"

text \<open>The \<open>forEach\<close> of \<open>encryptEnv\<close>: the lines pushed after the header.\<close>

fun encryptLines ::
  "crypto \<Rightarrow> string \<Rightarrow> string list \<Rightarrow> entropy \<Rightarrow> error + (string list \<times> entropy)" where
  "encryptLines C secretKey [] rnd = Inr ([], rnd)"
| "encryptLines C secretKey (line # ls) rnd =
     (if passedThrough line then
        (case encryptLines C secretKey ls rnd of
           Inl e \<Rightarrow> Inl e
         | Inr (out, rnd') \<Rightarrow> Inr (line # out, rnd'))
      else
        (case encryptString C line (Str secretKey) rnd of
           Inl e \<Rightarrow> Inl e
         | Inr (encrypted, rnd1) \<Rightarrow>
             (case encryptLines C secretKey ls rnd1 of
                Inl e \<Rightarrow> Inl e
              | Inr (out, rnd') \<Rightarrow> Inr (encrypted # out, rnd'))))"

definition encryptEnv ::
  "crypto \<Rightarrow> filesystem \<Rightarrow> entropy \<Rightarrow> path \<Rightarrow> path \<Rightarrow> string \<Rightarrow> error + (filesystem \<times> entropy)" where
  "encryptEnv C fs rnd filePath outputPath passphrase =
     (case fs filePath of
        None \<Rightarrow> Inl (FileDoesNotExist filePath)
      | Some envContent \<Rightarrow>
          (case getSecretKey fs of
             None \<Rightarrow> Inl SecretKeyRequired
           | Some secretKey \<Rightarrow>
               if secretKey = [] then Inl SecretKeyRequired
               else if envContent = [] then Inl (FileIsEmpty filePath)
               else
                 (case deriveKeyFromPassphrase C passphrase of
                    Inl e \<Rightarrow> Inl e
                  | Inr derivedKey \<Rightarrow>
                      (case encryptString C (keyLabel @ secretKey) (Buf derivedKey) rnd of
                         Inl e \<Rightarrow> Inl e
                       | Inr (encryptedSecretKey, rnd1) \<Rightarrow>
                           (case encryptLines C secretKey (splitOn NL envContent) rnd1 of
                              Inl e \<Rightarrow> Inl e
                            | Inr (out, rnd2) \<Rightarrow>
                                Inr ((fs(outputPath \<mapsto>
                                        joinLines ((''SECRET_KEY='' @ encryptedSecretKey) # out)))
                                       (filePath := None),
                                     rnd2))))))"

text \<open>The \<open>map\<close> of \<open>decryptEnv\<close> over the lines after the header.\<close>

fun decryptLines :: "crypto \<Rightarrow> string \<Rightarrow> string list \<Rightarrow> error + string list" where
  "decryptLines C secretKey [] = Inr []"
| "decryptLines C secretKey (line # ls) =
     (if passedThrough line then
        (case decryptLines C secretKey ls of
           Inl e \<Rightarrow> Inl e
         | Inr out \<Rightarrow> Inr (line # out))
      else
        (case decryptString C line (Str secretKey) of
           Inl e \<Rightarrow> Inl e
         | Inr decrypted \<Rightarrow>
             (case decryptLines C secretKey ls of
                Inl e \<Rightarrow> Inl e
              | Inr out \<Rightarrow> Inr (decrypted # out))))"

text \<open>
  \<open>secretKeyLine.split("=")[1]\<close>: the second field. A line that starts with
  \<open>SECRET_KEY=\<close> has one; without one the value is \<open>undefined\<close>, which
  \<open>decryptString\<close> rejects as it rejects the empty string.
\<close>

definition secondField :: "string \<Rightarrow> string" where
  "secondField secretKeyLine =
     (case splitOn CHR ''='' secretKeyLine of
        _ # f # _ \<Rightarrow> f
      | _ \<Rightarrow> [])"

definition decryptEnv ::
  "crypto \<Rightarrow> filesystem \<Rightarrow> path \<Rightarrow> path \<Rightarrow> string \<Rightarrow> error + filesystem" where
  "decryptEnv C fs filePath outputPath passphrase =
     (case fs filePath of
        None \<Rightarrow> Inl (FileDoesNotExist filePath)
      | Some envContent \<Rightarrow>
          (case splitOn NL envContent of
             [] \<Rightarrow> Inl SecretKeyNotFound
           | secretKeyLine # rest \<Rightarrow>
               if secretKeyLine = [] \<or> \<not> startsWith secretKeyLine ''SECRET_KEY=''
               then Inl SecretKeyNotFound
               else
                 (case deriveKeyFromPassphrase C passphrase of
                    Inl e \<Rightarrow> Inl e
                  | Inr derivedKey \<Rightarrow>
                      (case decryptString C (secondField secretKeyLine) (Buf derivedKey) of
                         Inl e \<Rightarrow> Inl e
                       | Inr decryptedSecretKeyLine \<Rightarrow>
                           (case matchSecretKey decryptedSecretKeyLine of
                              None \<Rightarrow> Inl SecretKeyNotFound
                            | Some secretKey \<Rightarrow>
                                if secretKey = [] then Inl SecretKeyNotFound
                                else
                                  (case decryptLines C secretKey rest of
                                     Inl e \<Rightarrow> Inl e
                                   | Inr decryptedLines \<Rightarrow>
                                       Inr ((fs(outputPath \<mapsto> joinLines decryptedLines))
                                              (filePath := None))))))))"

section \<open>bin/env-secure.js\<close>

text \<open>\<^verbatim>\<open>/ENV_SECURE_KEY=/.test(envContent)\<close>: the label stands somewhere in the text.\<close>

fun containsLabel :: "string \<Rightarrow> bool" where
  "containsLabel [] = False"
| "containsLabel (c # cs) = (startsWith (c # cs) keyLabel \<or> containsLabel cs)"

definition isSecretKeySet :: "filesystem \<Rightarrow> bool" where
  "isSecretKeySet fs =
     (case fs envFilePath of
        None \<Rightarrow> False
      | Some envContent \<Rightarrow> containsLabel envContent)"

definition updateSecretKey :: "filesystem \<Rightarrow> string \<Rightarrow> filesystem" where
  "updateSecretKey fs newSecretKey = fs(envFilePath \<mapsto> keyLabel @ newSecretKey @ [NL])"

text \<open>
  The action of the \<open>rotate-key\<close> command. The two answers of the user are arguments;
  each \<open>process.exit(1)\<close> is an error, named after the message printed before it.
\<close>

datatype exit = SecretKeyNotSet | CurrentKeyIncorrect | NewKeyEmpty

definition rotateKey :: "filesystem \<Rightarrow> string \<Rightarrow> string \<Rightarrow> exit + filesystem" where
  "rotateKey fs currentSecretKey newSecretKey =
     (if \<not> isSecretKeySet fs then Inl SecretKeyNotSet
      else if Some currentSecretKey \<noteq> getSecretKey fs then Inl CurrentKeyIncorrect
      else if newSecretKey = [] then Inl NewKeyEmpty
      else Inr (updateSecretKey fs newSecretKey))"

section \<open>The contract of the crypto module\<close>

definition isHexDigit :: "char \<Rightarrow> bool" where
  "isHexDigit c = (hexValue c \<noteq> None)"

text \<open>
  What the model takes from Node's documentation: \<open>scryptSync\<close> returns a key of the
  length asked for; with a key of 32 bytes and an initialisation vector of 16 bytes,
  \<open>aes-256-cbc\<close> encrypts every text to a non-empty string of hexadecimal digits, and
  deciphering that string with the same key and vector returns the text.
\<close>

definition cryptoContract :: "crypto \<Rightarrow> bool" where
  "cryptoContract C =
     ((\<forall>pw s n. length (scryptSync C pw s n) = n) \<and>
      (\<forall>key iv t. length key = 32 \<and> length iv = 16 \<longrightarrow>
         (\<exists>enc. cipherHex C algorithm key iv t = Inr enc \<and> enc \<noteq> [] \<and>
                (\<forall>c\<in>set enc. isHexDigit c) \<and>
                decipherHex C algorithm key iv enc = Inr t)))"

section \<open>A small instance of the crypto module\<close>

text \<open>
  An instance with the interface and the contract of the module and none of its
  strength, on which the model runs on concrete inputs: the key is a running sum of
  the password and the salt, and the cipher adds one byte of the key and of the vector
  to every byte of the text, padded as PKCS#7 pads it.
\<close>

definition demoBytes :: "string \<Rightarrow> buffer" where
  "demoBytes s = map (\<lambda>c. of_nat (of_char c)) s"

definition demoText :: "buffer \<Rightarrow> string" where
  "demoText b = map (\<lambda>x. char_of (unat x)) b"

fun demoSecretBytes :: "secret \<Rightarrow> buffer" where
  "demoSecretBytes (Str s) = demoBytes s"
| "demoSecretBytes (Buf b) = b"

definition demoScrypt :: "secret \<Rightarrow> string \<Rightarrow> nat \<Rightarrow> buffer" where
  "demoScrypt pw s n =
     map (\<lambda>i. sum_list (demoSecretBytes pw @ demoBytes s) + of_nat i) [0..<n]"

definition demoMask :: "buffer \<Rightarrow> buffer \<Rightarrow> byte" where
  "demoMask key iv =
     (case key of [] \<Rightarrow> 0 | k # _ \<Rightarrow> k) + (case iv of [] \<Rightarrow> 0 | v # _ \<Rightarrow> v)"

definition pkcs7Pad :: "buffer \<Rightarrow> buffer" where
  "pkcs7Pad b = b @ replicate (16 - length b mod 16) (of_nat (16 - length b mod 16))"

definition pkcs7Unpad :: "buffer \<Rightarrow> crypto_error + buffer" where
  "pkcs7Unpad b =
     (if b = [] \<or> length b mod 16 \<noteq> 0 then Inl WrongFinalBlockLength
      else
        let p = unat (last b) in
        if p = 0 \<or> 16 < p \<or> drop (length b - p) b \<noteq> replicate p (last b) then Inl BadDecrypt
        else Inr (take (length b - p) b))"

definition demoCipherHex ::
  "string \<Rightarrow> buffer \<Rightarrow> buffer \<Rightarrow> string \<Rightarrow> crypto_error + string" where
  "demoCipherHex alg key iv t =
     (if length key \<noteq> 32 then Inl InvalidKeyLength
      else if length iv \<noteq> 16 then Inl InvalidIV
      else Inr (toHex (map (\<lambda>x. x + demoMask key iv) (pkcs7Pad (demoBytes t)))))"

definition demoDecipherHex ::
  "string \<Rightarrow> buffer \<Rightarrow> buffer \<Rightarrow> string \<Rightarrow> crypto_error + string" where
  "demoDecipherHex alg key iv enc =
     (if length key \<noteq> 32 then Inl InvalidKeyLength
      else if length iv \<noteq> 16 then Inl InvalidIV
      else
        (case pkcs7Unpad (map (\<lambda>x. x - demoMask key iv) (fromHex enc)) of
           Inl e \<Rightarrow> Inl e
         | Inr b \<Rightarrow> Inr (demoText b)))"

definition demoCrypto :: crypto where
  "demoCrypto =
     \<lparr>scryptSync = demoScrypt, cipherHex = demoCipherHex, decipherHex = demoDecipherHex\<rparr>"

section \<open>The values of Node's crypto module on one run\<close>

text \<open>
  The values that Node's \<open>crypto\<close> module returns on the inputs of one run of the
  \<open>encrypt\<close> and \<open>decrypt\<close> commands, as data: \<open>scryptSync\<close> with the salt of the
  source, the key length 32 and Node's cost parameters (\<open>N = 16384\<close>, \<open>r = 8\<close>,
  \<open>p = 1\<close>), and \<open>aes-256-cbc\<close> with PKCS#7 padding under an initialisation vector of
  sixteen zero bytes. The run encrypts a file of the one line
  \<open>ENV_SECURE_KEY=s3cr3t\<close> with the passphrase \<open>pw\<close> and decrypts it with the
  passphrases \<open>pw\<close>, \<open>px\<close> and \<open>pw26\<close>.
\<close>

definition nodeIV :: buffer where
  "nodeIV = replicate 16 0"

text \<open>\<open>scryptSync("pw", salt, 32)\<close> and \<open>scryptSync\<close> of that key.\<close>

definition nodeDerivedPw :: buffer where
  "nodeDerivedPw = fromHex ''52cb6032269d165cae55e01d9e70152b71a2efa38f5576ac5327790a9ed6996d''"

definition nodeWrapPw :: buffer where
  "nodeWrapPw = fromHex ''f55396af2f3a9b318260723783fea5e6193e1963a1b181c2abbc0de38198f23d''"

text \<open>\<open>scryptSync("px", salt, 32)\<close> and \<open>scryptSync\<close> of that key.\<close>

definition nodeDerivedPx :: buffer where
  "nodeDerivedPx = fromHex ''db1809ff6e9c4275efcffaf87f0b3f2fcf15579a99fe9a73272b418481fd3c22''"

definition nodeWrapPx :: buffer where
  "nodeWrapPx = fromHex ''23ae4c933113389dabea941e61e93ed4c1e6cf49c2db152226bac08418b2380a''"

text \<open>\<open>scryptSync("pw26", salt, 32)\<close> and \<open>scryptSync\<close> of that key.\<close>

definition nodeDerivedPw26 :: buffer where
  "nodeDerivedPw26 = fromHex ''60bbec0f48892916fca0e17a21aafe78348259a39433b05d2b652449881a7073''"

definition nodeWrapPw26 :: buffer where
  "nodeWrapPw26 = fromHex ''fd70078cdb698f0455b85e1d3aaab9b529b9419a84fa3afbac023c3d9b935d19''"

text \<open>\<open>scryptSync("s3cr3t", salt, 32)\<close>, the key of the data lines.\<close>

definition nodeLineKey :: buffer where
  "nodeLineKey = fromHex ''251c3086d8cc9494fec8afd003a648178a8037f174c02f1603119729fd7a0529''"

text \<open>
  The text \<open>ENV_SECURE_KEY=s3cr3t\<close> enciphered under the wrapping key of \<open>pw\<close> (the
  header) and under the key of the data lines (the line of the file).
\<close>

definition nodeHeader :: string where
  "nodeHeader = ''f60e9ff00dd6481242ef64b9c0d00478acfd283fe94b4bc6247b02eb9ca03f94''"

definition nodeLine :: string where
  "nodeLine = ''e87752b86f0c963bd3203d3b603a9e9f39c81a552cbf8bc2574dcf09062f799d''"

text \<open>
  The header deciphered under the wrapping key of \<open>pw26\<close>: the last byte of the
  second block is 1, which the padding check accepts, and 31 bytes remain. The text
  is written with one character for each of these bytes; Node decodes them as UTF-8
  and puts a replacement character where they are none. The characters of the label
  are ASCII, so the label occurs in the one text where it occurs in the other.
\<close>

definition nodeGarbled :: string where
  "nodeGarbled =
     demoText (fromHex ''274897dee81e52a4e78aab9d2479b7a2a22669f2325be18578585a3f2b43ab'')"

text \<open>At every other input the instance is the small instance.\<close>

definition nodeScrypt :: "secret \<Rightarrow> string \<Rightarrow> nat \<Rightarrow> buffer" where
  "nodeScrypt pw s n =
     (if s = salt \<and> n = keyLength then
        (if pw = Str ''pw'' then nodeDerivedPw
         else if pw = Buf nodeDerivedPw then nodeWrapPw
         else if pw = Str ''px'' then nodeDerivedPx
         else if pw = Buf nodeDerivedPx then nodeWrapPx
         else if pw = Str ''pw26'' then nodeDerivedPw26
         else if pw = Buf nodeDerivedPw26 then nodeWrapPw26
         else if pw = Str ''s3cr3t'' then nodeLineKey
         else demoScrypt pw s n)
      else demoScrypt pw s n)"

definition nodeCipherHex ::
  "string \<Rightarrow> buffer \<Rightarrow> buffer \<Rightarrow> string \<Rightarrow> crypto_error + string" where
  "nodeCipherHex alg key iv t =
     (if iv = nodeIV \<and> t = ''ENV_SECURE_KEY=s3cr3t'' \<and> key = nodeWrapPw then Inr nodeHeader
      else if iv = nodeIV \<and> t = ''ENV_SECURE_KEY=s3cr3t'' \<and> key = nodeLineKey then Inr nodeLine
      else demoCipherHex alg key iv t)"

definition nodeDecipherHex ::
  "string \<Rightarrow> buffer \<Rightarrow> buffer \<Rightarrow> string \<Rightarrow> crypto_error + string" where
  "nodeDecipherHex alg key iv enc =
     (if iv = nodeIV \<and> enc = nodeHeader \<and> key = nodeWrapPw then Inr ''ENV_SECURE_KEY=s3cr3t''
      else if iv = nodeIV \<and> enc = nodeHeader \<and> key = nodeWrapPx then Inl BadDecrypt
      else if iv = nodeIV \<and> enc = nodeHeader \<and> key = nodeWrapPw26 then Inr nodeGarbled
      else if iv = nodeIV \<and> enc = nodeLine \<and> key = nodeLineKey then Inr ''ENV_SECURE_KEY=s3cr3t''
      else demoDecipherHex alg key iv enc)"

definition nodeCrypto :: crypto where
  "nodeCrypto =
     \<lparr>scryptSync = nodeScrypt, cipherHex = nodeCipherHex, decipherHex = nodeDecipherHex\<rparr>"

section \<open>Notions used in the statements\<close>

text \<open>The shape of what \<open>encryptString\<close> returns.\<close>

definition isToken :: "string \<Rightarrow> bool" where
  "isToken t =
     (\<exists>iv enc. t = toHex iv @ CHR '':'' # enc \<and> length iv = 16 \<and> enc \<noteq> [] \<and>
        (\<forall>c\<in>set enc. isHexDigit c))"

text \<open>
  The key under which the header is sealed: \<open>encryptEnv\<close> passes the key derived from
  the passphrase to \<open>encryptString\<close>, which derives its cipher key from it again.
\<close>

definition wrappingKey :: "crypto \<Rightarrow> string \<Rightarrow> buffer" where
  "wrappingKey C passphrase =
     scryptSync C (Buf (scryptSync C (Str passphrase) salt keyLength)) salt keyLength"

text \<open>
  The \<open>encrypt\<close> command followed by the \<open>decrypt\<close> command: \<open>encryptEnv\<close> with the
  first passphrase, then \<open>decryptEnv\<close> of its output with the second; the result is the
  file that \<open>decryptEnv\<close> leaves at its output path.
\<close>

definition encryptThenDecrypt ::
  "crypto \<Rightarrow> filesystem \<Rightarrow> entropy \<Rightarrow> path \<Rightarrow> path \<Rightarrow> path \<Rightarrow> string \<Rightarrow> string \<Rightarrow>
     error + string option" where
  "encryptThenDecrypt C fs rnd filePath outputPath restoredPath pass1 pass2 =
     (case encryptEnv C fs rnd filePath outputPath pass1 of
        Inl e \<Rightarrow> Inl e
      | Inr (fs1, rnd1) \<Rightarrow>
          (case decryptEnv C fs1 outputPath restoredPath pass2 of
             Inl e \<Rightarrow> Inl e
           | Inr fs2 \<Rightarrow> Inr (fs2 restoredPath)))"

text \<open>The lines of the file at a path after a run of \<open>encryptEnv\<close>.\<close>

definition writtenLines ::
  "error + (filesystem \<times> entropy) \<Rightarrow> path \<Rightarrow> error + string list option" where
  "writtenLines r p =
     (case r of
        Inl e \<Rightarrow> Inl e
      | Inr (fs, rnd) \<Rightarrow> Inr (map_option (splitOn NL) (fs p)))"

text \<open>
  The label stands at the place \<open>i\<close> of a text and a value follows it: a character, at
  least, that is not a line terminator.
\<close>

definition keyAt :: "string \<Rightarrow> nat \<Rightarrow> bool" where
  "keyAt s i =
     (startsWith (drop i s) keyLabel \<and>
      takeWhile (\<lambda>x. \<not> lineTerminator x) (drop (i + length keyLabel) s) \<noteq> [])"

text \<open>
  The secret key as the sentence on \<open>getSecretKey\<close> words it, for comparison with the
  function of the source: the rest of the line after the first occurrence of the
  label, trimmed, whatever follows the label; nothing when the file is absent or the
  label does not occur.
\<close>

fun afterFirstLabel :: "string \<Rightarrow> string option" where
  "afterFirstLabel [] = None"
| "afterFirstLabel (c # cs) =
     (if startsWith (c # cs) keyLabel then Some (drop (length keyLabel) (c # cs))
      else afterFirstLabel cs)"

definition firstLabelSecretKey :: "filesystem \<Rightarrow> string option" where
  "firstLabelSecretKey fs =
     (case fs envFilePath of
        None \<Rightarrow> None
      | Some envContent \<Rightarrow>
          (case afterFirstLabel envContent of
             None \<Rightarrow> None
           | Some r \<Rightarrow> Some (trim (takeWhile (\<lambda>x. \<not> lineTerminator x) r))))"

section \<open>Hexadecimal text and the small instance\<close>

lemma demoText_demoBytes: "demoText (demoBytes s) = s"
  unfolding demoText_def demoBytes_def
  by (induction s) (simp_all add: unat_of_nat)

lemma hexValue_hexDigit: "n < 16 \<Longrightarrow> hexValue (hexDigit n) = Some n"
proof -
  have "\<forall>n<16. hexValue (hexDigit n) = Some n"
    by (simp add: All_less_Suc eval_nat_numeral hexValue_def hexDigit_def)
  then show "n < 16 \<Longrightarrow> hexValue (hexDigit n) = Some n" by blast
qed

lemma unat_byte_div: "unat (x :: byte) div 16 < 16"
proof -
  have "unat x < 2 ^ LENGTH(8)" by (rule unsigned_less)
  then show ?thesis by simp
qed

lemma fromHex_toHex_append: "fromHex (toHex b @ rest) = b @ fromHex rest"
  by (induction b) (simp_all add: toHex_def hexValue_hexDigit unat_byte_div)

lemma fromHex_toHex: "fromHex (toHex b) = b"
  using fromHex_toHex_append [of b "[]"] by simp

lemma toHex_digits: "c \<in> set (toHex b) \<Longrightarrow> isHexDigit c"
  by (induction b) (auto simp add: toHex_def isHexDigit_def hexValue_hexDigit unat_byte_div)

lemma length_toHex: "length (toHex b) = 2 * length b"
  by (induction b) (simp_all add: toHex_def)

lemma isHexDigit_not_sep:
  "isHexDigit c \<Longrightarrow> c \<noteq> CHR '':'' \<and> c \<noteq> CHR ''='' \<and> c \<noteq> CHR ''#'' \<and> c \<noteq> NL \<and> \<not> whiteSpace c"
  by (auto simp add: isHexDigit_def hexValue_def NL_def whiteSpace_def Let_def split: if_splits)

lemma pkcs7Unpad_pkcs7Pad: "pkcs7Unpad (pkcs7Pad b) = Inr b"
proof -
  define p where "p = 16 - length b mod 16"
  have p: "0 < p" "p \<le> 16" by (simp_all add: p_def)
  have up: "unat (of_nat p :: byte) = p" using p by (simp add: unat_of_nat)
  have len: "(length b + p) mod 16 = 0" unfolding p_def by presburger
  have pad: "pkcs7Pad b = b @ replicate p (of_nat p)" by (simp add: pkcs7Pad_def p_def)
  have l: "last (b @ replicate p (of_nat p :: byte)) = of_nat p" using p by simp
  show ?thesis
    unfolding pad pkcs7Unpad_def l up Let_def using p len by simp
qed

lemma toHex_empty: "toHex b = [] \<longleftrightarrow> b = []"
  using length_toHex [of b] by (cases b) auto

lemma pkcs7Pad_nonempty: "pkcs7Pad b \<noteq> []"
  by (simp add: pkcs7Pad_def)

lemma demo_roundtrip:
  assumes "length key = 32" "length iv = 16"
  shows "\<exists>enc. demoCipherHex alg key iv t = Inr enc \<and> enc \<noteq> [] \<and>
           (\<forall>c\<in>set enc. isHexDigit c) \<and> demoDecipherHex alg key iv enc = Inr t"
proof -
  let ?enc = "toHex (map (\<lambda>x. x + demoMask key iv) (pkcs7Pad (demoBytes t)))"
  have 1: "demoCipherHex alg key iv t = Inr ?enc"
    using assms by (simp add: demoCipherHex_def)
  have 2: "?enc \<noteq> []" by (simp add: toHex_empty pkcs7Pad_nonempty)
  have 3: "\<forall>c\<in>set ?enc. isHexDigit c" using toHex_digits by blast
  have 4: "demoDecipherHex alg key iv ?enc = Inr t"
    using assms
    by (simp add: demoDecipherHex_def fromHex_toHex o_def pkcs7Unpad_pkcs7Pad demoText_demoBytes)
  from 1 2 3 4 show ?thesis by blast
qed

lemma demoCrypto_contract: "cryptoContract demoCrypto"
  unfolding cryptoContract_def
  using demo_roundtrip by (simp add: demoCrypto_def demoScrypt_def)

section \<open>Splitting, joining and trimming\<close>

lemma splitOn_nonempty: "splitOn c s \<noteq> []"
  by (induction s) (auto split: list.splits)

lemma splitOn_absent: "c \<notin> set s \<Longrightarrow> splitOn c s = [s]"
  by (induction s) auto

lemma splitOn_append: "c \<notin> set a \<Longrightarrow> splitOn c (a @ c # b) = a # splitOn c b"
  by (induction a) auto

lemma joinLines_cons: "joinLines ((x # l) # ls) = x # joinLines (l # ls)"
  by (cases ls) simp_all

lemma joinLines_splitOn: "joinLines (splitOn NL s) = s"
proof (induction s)
  case Nil
  then show ?case by simp
next
  case (Cons x xs)
  then show ?case
    using splitOn_nonempty [of NL xs]
    by (cases "splitOn NL xs") (auto simp add: joinLines_cons)
qed

lemma splitOn_joinLines:
  "ls \<noteq> [] \<Longrightarrow> \<forall>l\<in>set ls. NL \<notin> set l \<Longrightarrow> splitOn NL (joinLines ls) = ls"
proof (induction ls rule: joinLines.induct)
  case 1
  then show ?case by simp
next
  case (2 l)
  then show ?case by (simp add: splitOn_absent)
next
  case (3 l m ls)
  then show ?case by (simp add: splitOn_append)
qed

lemma splitOn_parts: "l \<in> set (splitOn c s) \<Longrightarrow> c \<notin> set l"
proof (induction s arbitrary: l)
  case Nil
  then show ?case by simp
next
  case (Cons x xs)
  then show ?case
    by (cases "splitOn c xs") (auto split: if_splits)
qed

lemma dropWhile_all: "(\<forall>x\<in>set (dropWhile P s). P x) \<longleftrightarrow> (\<forall>x\<in>set s. P x)"
  by (induction s) auto

lemma trim_empty: "trim s = [] \<longleftrightarrow> (\<forall>c\<in>set s. whiteSpace c)"
  by (simp add: trim_def dropWhile_eq_Nil_conv dropWhile_all)

lemma trim_subset: "set (trim s) \<subseteq> set s"
  unfolding trim_def
  by (metis set_dropWhileD set_rev subsetI)

section \<open>Sealing and opening one string\<close>

lemma randomBytes_16: "randomBytes 16 rnd = (stake 16 rnd, sdrop 16 rnd)"
  by (simp add: randomBytes_def)

lemma scrypt_length: "cryptoContract C \<Longrightarrow> length (scryptSync C pw s keyLength) = 32"
  by (simp add: cryptoContract_def keyLength_def)

lemma cipher_roundtrip:
  assumes "cryptoContract C" "length key = 32" "length iv = 16"
  obtains enc where "cipherHex C algorithm key iv t = Inr enc" "enc \<noteq> []"
    "\<forall>c\<in>set enc. isHexDigit c" "decipherHex C algorithm key iv enc = Inr t"
  using assms unfolding cryptoContract_def by blast

lemma decryptString_fields:
  assumes "\<not> falsy secretKey" "splitOn CHR '':'' t = ivHex # encrypted # others"
    "ivHex \<noteq> []" "encrypted \<noteq> []"
  shows "decryptString C t secretKey =
           (case decipherHex C algorithm (scryptSync C secretKey salt keyLength)
                   (fromHex ivHex) encrypted of
              Inl e \<Rightarrow> Inl (CryptoFailure e)
            | Inr decrypted \<Rightarrow> Inr decrypted)"
proof -
  have "t \<noteq> []" using assms(2) by auto
  then show ?thesis using assms by (simp add: decryptString_def)
qed

lemma hex_no_colon: "\<forall>c\<in>set s. isHexDigit c \<Longrightarrow> CHR '':'' \<notin> set s"
  using isHexDigit_not_sep by blast

lemma toHex_no_colon: "CHR '':'' \<notin> set (toHex b)"
  using toHex_digits isHexDigit_not_sep by blast

lemma encryptString_decryptString:
  assumes "cryptoContract C" "t \<noteq> []" "\<not> falsy secretKey"
  obtains token where "encryptString C t secretKey rnd = Inr (token, sdrop 16 rnd)"
    "isToken token" "decryptString C token secretKey = Inr t"
proof -
  let ?key = "scryptSync C secretKey salt keyLength"
  let ?iv = "stake 16 rnd"
  have k: "length ?key = 32" using assms(1) by (rule scrypt_length)
  have i: "length ?iv = 16" by simp
  obtain enc where enc: "cipherHex C algorithm ?key ?iv t = Inr enc" "enc \<noteq> []"
    "\<forall>c\<in>set enc. isHexDigit c" "decipherHex C algorithm ?key ?iv enc = Inr t"
    using cipher_roundtrip [OF assms(1) k i] by blast
  let ?token = "toHex ?iv @ CHR '':'' # enc"
  have e: "encryptString C t secretKey rnd = Inr (?token, sdrop 16 rnd)"
    using assms(2,3) enc(1) by (simp add: encryptString_def randomBytes_16)
  have tk: "isToken ?token"
    unfolding isToken_def using enc(2,3) i by blast
  have sp: "splitOn CHR '':'' ?token = [toHex ?iv, enc]"
    using splitOn_append [OF toHex_no_colon, of ?iv enc] splitOn_absent [OF hex_no_colon [OF enc(3)]]
    by simp
  have ne: "toHex ?iv \<noteq> []" using toHex_empty [of ?iv] i by auto
  have d: "decryptString C ?token secretKey = Inr t"
    using decryptString_fields [OF assms(3) sp ne enc(2), of C] enc(4)
    by (simp add: fromHex_toHex)
  from e tk d show ?thesis using that by blast
qed

section \<open>The lines of a file\<close>

lemma isToken_nonempty: "isToken t \<Longrightarrow> t \<noteq> []"
  by (auto simp add: isToken_def)

lemma isToken_chars:
  assumes "isToken t" "c \<in> set t"
  shows "c \<noteq> NL \<and> c \<noteq> CHR ''=''"
proof -
  obtain iv enc where t: "t = toHex iv @ CHR '':'' # enc" "\<forall>c\<in>set enc. isHexDigit c"
    using assms(1) by (auto simp add: isToken_def)
  have "isHexDigit c \<or> c = CHR '':''" using assms(2) t toHex_digits by auto
  then show ?thesis using isHexDigit_not_sep by (auto simp add: NL_def)
qed

lemma isToken_no_NL: "isToken t \<Longrightarrow> NL \<notin> set t"
  using isToken_chars by blast

lemma isToken_no_eq: "isToken t \<Longrightarrow> CHR ''='' \<notin> set t"
  using isToken_chars by blast

lemma isToken_hd:
  assumes "isToken t"
  obtains d ds where "t = d # ds" "isHexDigit d"
proof -
  obtain iv enc where t: "t = toHex iv @ CHR '':'' # enc" "length iv = 16"
    using assms by (auto simp add: isToken_def)
  then obtain x xs where iv: "iv = x # xs" by (cases iv) auto
  have "t = hexDigit (unat x div 16) # (hexDigit (unat x mod 16) # toHex xs @ CHR '':'' # enc)"
    using t iv by (simp add: toHex_def)
  moreover have "isHexDigit (hexDigit (unat x div 16))"
    by (simp add: isHexDigit_def hexValue_hexDigit unat_byte_div)
  ultimately show ?thesis using that by blast
qed

lemma isToken_not_passedThrough: "isToken t \<Longrightarrow> \<not> passedThrough t"
proof -
  assume "isToken t"
  then obtain d ds where t: "t = d # ds" "isHexDigit d" by (rule isToken_hd)
  have "\<not> whiteSpace d" "d \<noteq> CHR ''#''" using t(2) isHexDigit_not_sep by blast+
  then show ?thesis using t(1) by (auto simp add: passedThrough_def trim_empty startsWith_def)
qed

lemma not_passedThrough_nonempty: "\<not> passedThrough l \<Longrightarrow> l \<noteq> []"
  by (auto simp add: passedThrough_def trim_def)

lemma encryptLines_decryptLines:
  assumes "cryptoContract C" "secretKey \<noteq> []"
  shows "\<exists>out rnd'. encryptLines C secretKey ls rnd = Inr (out, rnd') \<and>
           decryptLines C secretKey out = Inr ls \<and>
           length out = length ls \<and>
           (\<forall>i<length ls. passedThrough (ls ! i) \<longrightarrow> out ! i = ls ! i) \<and>
           (\<forall>i<length ls. \<not> passedThrough (ls ! i) \<longrightarrow> isToken (out ! i))"
proof (induction ls arbitrary: rnd)
  case Nil
  then show ?case by simp
next
  case (Cons l ls)
  show ?case
  proof (cases "passedThrough l")
    case True
    obtain out rnd' where ih: "encryptLines C secretKey ls rnd = Inr (out, rnd')"
      "decryptLines C secretKey out = Inr ls" "length out = length ls"
      "\<forall>i<length ls. passedThrough (ls ! i) \<longrightarrow> out ! i = ls ! i"
      "\<forall>i<length ls. \<not> passedThrough (ls ! i) \<longrightarrow> isToken (out ! i)"
      using Cons.IH [of rnd] by blast
    have "encryptLines C secretKey (l # ls) rnd = Inr (l # out, rnd')"
      using True ih(1) by simp
    moreover have "decryptLines C secretKey (l # out) = Inr (l # ls)"
      using True ih(2) by simp
    moreover have "\<forall>i<length (l # ls). passedThrough ((l # ls) ! i) \<longrightarrow> (l # out) ! i = (l # ls) ! i"
      using ih(4) by (simp add: nth_Cons split: nat.split)
    moreover have "\<forall>i<length (l # ls). \<not> passedThrough ((l # ls) ! i) \<longrightarrow> isToken ((l # out) ! i)"
      using ih(5) True by (simp add: nth_Cons split: nat.split)
    ultimately show ?thesis using ih(3) by simp
  next
    case False
    have ne: "l \<noteq> []" using False by (rule not_passedThrough_nonempty)
    have key: "\<not> falsy (Str secretKey)" using assms(2) by simp
    obtain token where tok: "encryptString C l (Str secretKey) rnd = Inr (token, sdrop 16 rnd)"
      "isToken token" "decryptString C token (Str secretKey) = Inr l"
      using encryptString_decryptString [OF assms(1) ne key] by blast
    obtain out rnd' where ih: "encryptLines C secretKey ls (sdrop 16 rnd) = Inr (out, rnd')"
      "decryptLines C secretKey out = Inr ls" "length out = length ls"
      "\<forall>i<length ls. passedThrough (ls ! i) \<longrightarrow> out ! i = ls ! i"
      "\<forall>i<length ls. \<not> passedThrough (ls ! i) \<longrightarrow> isToken (out ! i)"
      using Cons.IH [of "sdrop 16 rnd"] by blast
    have "encryptLines C secretKey (l # ls) rnd = Inr (token # out, rnd')"
      using False tok(1) ih(1) by simp
    moreover have "decryptLines C secretKey (token # out) = Inr (l # ls)"
      using isToken_not_passedThrough [OF tok(2)] tok(3) ih(2) by simp
    moreover have "\<forall>i<length (l # ls). passedThrough ((l # ls) ! i) \<longrightarrow> (token # out) ! i = (l # ls) ! i"
      using ih(4) False by (simp add: nth_Cons split: nat.split)
    moreover have "\<forall>i<length (l # ls). \<not> passedThrough ((l # ls) ! i) \<longrightarrow> isToken ((token # out) ! i)"
      using ih(5) tok(2) by (simp add: nth_Cons split: nat.split)
    ultimately show ?thesis using ih(3) by simp
  qed
qed

section \<open>Matching the reserved label\<close>

lemma matchSecretKey_group:
  "matchSecretKey s = Some g \<Longrightarrow> g \<noteq> [] \<and> (\<forall>c\<in>set g. \<not> lineTerminator c)"
proof (induction s)
  case Nil
  then show ?case by simp
next
  case (Cons c cs)
  then show ?case
    by (auto simp add: Let_def split: if_splits dest: set_takeWhileD)
qed

lemma getSecretKey_chars:
  assumes "getSecretKey fs = Some k"
  shows "\<forall>c\<in>set k. \<not> lineTerminator c"
proof -
  obtain content g where g: "matchSecretKey content = Some g" "k = trim g"
    using assms by (auto simp add: getSecretKey_def split: option.splits if_splits)
  show ?thesis using matchSecretKey_group [OF g(1)] g(2) trim_subset by blast
qed

lemma matchSecretKey_here:
  assumes "startsWith s keyLabel"
    "takeWhile (\<lambda>x. \<not> lineTerminator x) (drop (length keyLabel) s) \<noteq> []"
  shows "matchSecretKey s = Some (takeWhile (\<lambda>x. \<not> lineTerminator x) (drop (length keyLabel) s))"
proof (cases s)
  case Nil
  then show ?thesis using assms(2) by simp
next
  case (Cons c cs)
  then show ?thesis using assms by (simp add: Let_def)
qed

lemma matchSecretKey_label:
  assumes "k \<noteq> []" "\<forall>c\<in>set k. \<not> lineTerminator c"
  shows "matchSecretKey (keyLabel @ k) = Some k"
proof -
  have tw: "takeWhile (\<lambda>x. \<not> lineTerminator x) k = k" using assms(2) by simp
  show ?thesis
    using matchSecretKey_here [of "keyLabel @ k"] tw assms(1)
    by (simp add: startsWith_def)
qed

text \<open>
  Every non-empty key without a line terminator and without white space around it is
  the key that \<open>getSecretKey\<close> reads from a file that stores it under the label.
\<close>

lemma getSecretKey_stored:
  assumes "k \<noteq> []" "\<forall>c\<in>set k. \<not> lineTerminator c" "trim k = k"
  shows "getSecretKey [envFilePath \<mapsto> keyLabel @ k] = Some k"
  using matchSecretKey_label [OF assms(1,2)] assms(1,3) by (simp add: getSecretKey_def)

section \<open>Opening the header of an encrypted file\<close>

lemma encryptString_explicit:
  assumes "t \<noteq> []" "\<not> falsy secretKey"
    "cipherHex C algorithm (scryptSync C secretKey salt keyLength) (stake 16 rnd) t = Inr enc"
  shows "encryptString C t secretKey rnd = Inr (toHex (stake 16 rnd) @ CHR '':'' # enc, sdrop 16 rnd)"
  using assms by (simp add: encryptString_def randomBytes_16)

lemma splitOn_token:
  assumes "\<forall>c\<in>set enc. isHexDigit c"
  shows "splitOn CHR '':'' (toHex iv @ CHR '':'' # enc) = [toHex iv, enc]"
  using splitOn_append [OF toHex_no_colon, of iv enc] splitOn_absent [OF hex_no_colon [OF assms]]
  by simp

lemma decryptString_token:
  assumes "\<not> falsy secretKey" "length iv = 16" "enc \<noteq> []" "\<forall>c\<in>set enc. isHexDigit c"
  shows "decryptString C (toHex iv @ CHR '':'' # enc) secretKey =
           (case decipherHex C algorithm (scryptSync C secretKey salt keyLength) iv enc of
              Inl e \<Rightarrow> Inl (CryptoFailure e)
            | Inr decrypted \<Rightarrow> Inr decrypted)"
proof -
  have ne: "toHex iv \<noteq> []" using toHex_empty [of iv] assms(2) by auto
  show ?thesis
    using decryptString_fields [OF assms(1) splitOn_token [OF assms(4)] ne assms(3)]
    by (simp add: fromHex_toHex)
qed

lemma secondField_header: "isToken header \<Longrightarrow> secondField (''SECRET_KEY='' @ header) = header"
proof -
  assume "isToken header"
  then have "CHR ''='' \<notin> set header" by (rule isToken_no_eq)
  then have "splitOn CHR ''='' header = [header]" by (rule splitOn_absent)
  moreover have "splitOn CHR ''='' (''SECRET_KEY'' @ CHR ''='' # header) =
      ''SECRET_KEY'' # splitOn CHR ''='' header"
    by (rule splitOn_append) simp
  ultimately show ?thesis by (simp add: secondField_def)
qed

lemma decryptEnv_header:
  assumes "fs filePath = Some (joinLines ((''SECRET_KEY='' @ header) # out))"
    "isToken header" "\<forall>l\<in>set out. NL \<notin> set l" "passphrase \<noteq> []"
  shows "decryptEnv C fs filePath outputPath passphrase =
           (case decryptString C header (Buf (scryptSync C (Str passphrase) salt keyLength)) of
              Inl e \<Rightarrow> Inl e
            | Inr line \<Rightarrow>
                (case matchSecretKey line of
                   None \<Rightarrow> Inl SecretKeyNotFound
                 | Some secretKey \<Rightarrow>
                     (case decryptLines C secretKey out of
                        Inl e \<Rightarrow> Inl e
                      | Inr ls \<Rightarrow> Inr ((fs(outputPath \<mapsto> joinLines ls))(filePath := None)))))"
proof -
  have nl: "NL \<notin> set (''SECRET_KEY='' @ header)"
    using isToken_no_NL [OF assms(2)] by (simp add: NL_def)
  have sp: "splitOn NL (joinLines ((''SECRET_KEY='' @ header) # out)) = (''SECRET_KEY='' @ header) # out"
    by (rule splitOn_joinLines) (use nl assms(3) in auto)
  have st: "startsWith (''SECRET_KEY='' @ header) ''SECRET_KEY=''"
    by (simp add: startsWith_def)
  have grp: "\<And>line k. matchSecretKey line = Some k \<Longrightarrow> k \<noteq> []"
    using matchSecretKey_group by blast
  show ?thesis
    unfolding decryptEnv_def
    using assms(1,4) st secondField_header [OF assms(2)] grp
    by (auto simp add: sp deriveKeyFromPassphrase_def split: sum.splits option.splits simp del: append.simps)
qed

section \<open>Encrypting a file\<close>

lemma wrappingKey_length: "cryptoContract C \<Longrightarrow> length (wrappingKey C p) = 32"
  by (simp add: wrappingKey_def scrypt_length)

lemma encryptEnv_result:
  assumes "cryptoContract C" "fs filePath = Some envContent" "envContent \<noteq> []"
    "getSecretKey fs = Some secretKey" "secretKey \<noteq> []" "passphrase \<noteq> []"
  obtains enc out rnd' where
    "cipherHex C algorithm (wrappingKey C passphrase) (stake 16 rnd) (keyLabel @ secretKey) = Inr enc"
    "enc \<noteq> []" "\<forall>c\<in>set enc. isHexDigit c"
    "decipherHex C algorithm (wrappingKey C passphrase) (stake 16 rnd) enc = Inr (keyLabel @ secretKey)"
    "encryptEnv C fs rnd filePath outputPath passphrase =
       Inr ((fs(outputPath \<mapsto>
               joinLines ((''SECRET_KEY='' @ toHex (stake 16 rnd) @ CHR '':'' # enc) # out)))
              (filePath := None), rnd')"
    "decryptLines C secretKey out = Inr (splitOn NL envContent)"
    "length out = length (splitOn NL envContent)"
    "\<forall>i<length out. passedThrough (splitOn NL envContent ! i) \<longrightarrow> out ! i = splitOn NL envContent ! i"
    "\<forall>i<length out. \<not> passedThrough (splitOn NL envContent ! i) \<longrightarrow> isToken (out ! i)"
    "\<forall>l\<in>set out. NL \<notin> set l"
proof -
  let ?ls = "splitOn NL envContent"
  let ?iv = "stake 16 rnd"
  have k: "length (wrappingKey C passphrase) = 32" using assms(1) by (rule wrappingKey_length)
  obtain enc where enc:
    "cipherHex C algorithm (wrappingKey C passphrase) ?iv (keyLabel @ secretKey) = Inr enc"
    "enc \<noteq> []" "\<forall>c\<in>set enc. isHexDigit c"
    "decipherHex C algorithm (wrappingKey C passphrase) ?iv enc = Inr (keyLabel @ secretKey)"
    using cipher_roundtrip [OF assms(1) k, of ?iv] by auto
  have hd: "encryptString C (keyLabel @ secretKey)
              (Buf (scryptSync C (Str passphrase) salt keyLength)) rnd =
            Inr (toHex ?iv @ CHR '':'' # enc, sdrop 16 rnd)"
    by (rule encryptString_explicit) (use enc(1) in \<open>simp_all add: keyLabel_def wrappingKey_def\<close>)
  obtain out rnd' where out: "encryptLines C secretKey ?ls (sdrop 16 rnd) = Inr (out, rnd')"
    "decryptLines C secretKey out = Inr ?ls" "length out = length ?ls"
    "\<forall>i<length ?ls. passedThrough (?ls ! i) \<longrightarrow> out ! i = ?ls ! i"
    "\<forall>i<length ?ls. \<not> passedThrough (?ls ! i) \<longrightarrow> isToken (out ! i)"
    using encryptLines_decryptLines [OF assms(1,5), of ?ls "sdrop 16 rnd"] by blast
  have nl: "\<forall>l\<in>set out. NL \<notin> set l"
  proof
    fix l assume "l \<in> set out"
    then obtain i where i: "i < length out" "l = out ! i" by (auto simp add: in_set_conv_nth)
    show "NL \<notin> set l"
    proof (cases "passedThrough (?ls ! i)")
      case True
      then have "l = ?ls ! i" using out(3,4) i by simp
      then have "l \<in> set ?ls" using out(3) i by simp
      then show ?thesis by (rule splitOn_parts)
    next
      case False
      then have "isToken l" using out(3,5) i by simp
      then show ?thesis by (rule isToken_no_NL)
    qed
  qed
  have e: "encryptEnv C fs rnd filePath outputPath passphrase =
       Inr ((fs(outputPath \<mapsto>
               joinLines ((''SECRET_KEY='' @ toHex ?iv @ CHR '':'' # enc) # out)))
              (filePath := None), rnd')"
    unfolding encryptEnv_def
    using assms(2-6) hd out(1) by (simp add: deriveKeyFromPassphrase_def)
  show ?thesis
    using that [OF enc e out(2) out(3)] out(3,4,5) nl by simp
qed

section \<open>Encrypting and then decrypting a file\<close>

lemma encrypt_then_decrypt:
  assumes "cryptoContract C" "fs filePath = Some envContent" "envContent \<noteq> []"
    "getSecretKey fs = Some secretKey" "secretKey \<noteq> []" "pass1 \<noteq> []" "pass2 \<noteq> []"
    "outputPath \<noteq> filePath"
  obtains enc out fs1 rnd1 where
    "cipherHex C algorithm (wrappingKey C pass1) (stake 16 rnd) (keyLabel @ secretKey) = Inr enc"
    "encryptEnv C fs rnd filePath outputPath pass1 = Inr (fs1, rnd1)"
    "fs1 outputPath = Some (joinLines ((''SECRET_KEY='' @ toHex (stake 16 rnd) @ CHR '':'' # enc) # out))"
    "splitOn NL (joinLines ((''SECRET_KEY='' @ toHex (stake 16 rnd) @ CHR '':'' # enc) # out)) =
       (''SECRET_KEY='' @ toHex (stake 16 rnd) @ CHR '':'' # enc) # out"
    "length out = length (splitOn NL envContent)"
    "\<forall>i<length out. passedThrough (splitOn NL envContent ! i) \<longrightarrow> out ! i = splitOn NL envContent ! i"
    "\<forall>i<length out. \<not> passedThrough (splitOn NL envContent ! i) \<longrightarrow> isToken (out ! i)"
    "\<forall>ce. decipherHex C algorithm (wrappingKey C pass2) (stake 16 rnd) enc = Inl ce \<longrightarrow>
       decryptEnv C fs1 outputPath restoredPath pass2 = Inl (CryptoFailure ce)"
    "wrappingKey C pass2 = wrappingKey C pass1 \<longrightarrow>
       decryptEnv C fs1 outputPath restoredPath pass2 =
         Inr ((fs1(restoredPath \<mapsto> envContent))(outputPath := None))"
proof -
  let ?iv = "stake 16 rnd"
  obtain enc out rnd' where r:
    "cipherHex C algorithm (wrappingKey C pass1) ?iv (keyLabel @ secretKey) = Inr enc"
    "enc \<noteq> []" "\<forall>c\<in>set enc. isHexDigit c"
    "decipherHex C algorithm (wrappingKey C pass1) ?iv enc = Inr (keyLabel @ secretKey)"
    "encryptEnv C fs rnd filePath outputPath pass1 =
       Inr ((fs(outputPath \<mapsto>
               joinLines ((''SECRET_KEY='' @ toHex ?iv @ CHR '':'' # enc) # out)))
              (filePath := None), rnd')"
    "decryptLines C secretKey out = Inr (splitOn NL envContent)"
    "length out = length (splitOn NL envContent)"
    "\<forall>i<length out. passedThrough (splitOn NL envContent ! i) \<longrightarrow> out ! i = splitOn NL envContent ! i"
    "\<forall>i<length out. \<not> passedThrough (splitOn NL envContent ! i) \<longrightarrow> isToken (out ! i)"
    "\<forall>l\<in>set out. NL \<notin> set l"
    by (rule encryptEnv_result [OF assms(1-6), of rnd outputPath])
  let ?header = "toHex ?iv @ CHR '':'' # enc"
  let ?content = "joinLines ((''SECRET_KEY='' @ ?header) # out)"
  let ?fs1 = "(fs(outputPath \<mapsto> ?content))(filePath := None)"
  have tok: "isToken ?header"
    unfolding isToken_def using r(2,3) by (intro exI [of _ ?iv] exI [of _ enc]) simp
  have f1: "?fs1 outputPath = Some ?content" using assms(8) by simp
  have nl: "NL \<notin> set (''SECRET_KEY='' @ ?header)"
    using isToken_no_NL [OF tok] by (simp add: NL_def)
  have sp: "splitOn NL ?content = (''SECRET_KEY='' @ ?header) # out"
    by (rule splitOn_joinLines) (use nl r(10) in auto)
  have dec: "decryptEnv C ?fs1 outputPath restoredPath pass2 =
           (case decryptString C ?header (Buf (scryptSync C (Str pass2) salt keyLength)) of
              Inl e \<Rightarrow> Inl e
            | Inr line \<Rightarrow>
                (case matchSecretKey line of
                   None \<Rightarrow> Inl SecretKeyNotFound
                 | Some secretKey \<Rightarrow>
                     (case decryptLines C secretKey out of
                        Inl e \<Rightarrow> Inl e
                      | Inr ls \<Rightarrow> Inr ((?fs1(restoredPath \<mapsto> joinLines ls))(outputPath := None)))))"
    using decryptEnv_header [of ?fs1 outputPath ?header out pass2 C restoredPath] f1 tok r(10) assms(7)
    by blast
  have ds: "decryptString C ?header (Buf (scryptSync C (Str pass2) salt keyLength)) =
           (case decipherHex C algorithm (wrappingKey C pass2) ?iv enc of
              Inl e \<Rightarrow> Inl (CryptoFailure e)
            | Inr decrypted \<Rightarrow> Inr decrypted)"
    using decryptString_token [of "Buf (scryptSync C (Str pass2) salt keyLength)" ?iv enc C] r(2,3)
    by (simp add: wrappingKey_def)
  have bad: "\<forall>ce. decipherHex C algorithm (wrappingKey C pass2) ?iv enc = Inl ce \<longrightarrow>
       decryptEnv C ?fs1 outputPath restoredPath pass2 = Inl (CryptoFailure ce)"
    unfolding dec ds by simp
  have m: "matchSecretKey (keyLabel @ secretKey) = Some secretKey"
    using matchSecretKey_label [OF assms(5)] getSecretKey_chars [OF assms(4)] by simp
  have good: "wrappingKey C pass2 = wrappingKey C pass1 \<longrightarrow>
       decryptEnv C ?fs1 outputPath restoredPath pass2 =
         Inr ((?fs1(restoredPath \<mapsto> envContent))(outputPath := None))"
    unfolding dec ds using r(4,6) m by (simp add: joinLines_splitOn)
  show ?thesis
    by (rule that [OF r(1) r(5) f1 sp r(7) r(8) r(9) bad good])
qed

section \<open>Sample inputs\<close>

lemma joinLines_nonempty: "\<exists>l\<in>set ls. l \<noteq> [] \<Longrightarrow> joinLines ls \<noteq> []"
  by (induction ls rule: joinLines.induct) auto

lemma demo_getSecretKey:
  "getSecretKey [envFilePath \<mapsto> joinLines [''ENV_SECURE_KEY=s3cr3t'', ''A=1'']] = Some ''s3cr3t''"
  by (simp add: getSecretKey_def keyLabel_def startsWith_def lineTerminator_def NL_def
      trim_def whiteSpace_def)

section \<open>Passphrases with one wrapping key\<close>

lemma wrappingKey_collision:
  assumes "cryptoContract C"
  shows "\<exists>p1 p2. p1 \<noteq> [] \<and> p2 \<noteq> [] \<and> p1 \<noteq> p2 \<and> wrappingKey C p1 = wrappingKey C p2"
proof -
  let ?A = "{p :: string. p \<noteq> []}"
  have "infinite (UNIV :: string set)" by (rule infinite_UNIV_listI)
  moreover have "(UNIV :: string set) = insert [] ?A" by auto
  ultimately have inf: "infinite ?A" by (metis finite_insert)
  have "wrappingKey C ` ?A \<subseteq> {k. set k \<subseteq> (UNIV :: byte set) \<and> length k = 32}"
    using wrappingKey_length [OF assms] by auto
  moreover have "finite {k. set k \<subseteq> (UNIV :: byte set) \<and> length k = 32}"
    by (rule finite_lists_length_eq) simp
  ultimately have "finite (wrappingKey C ` ?A)" by (rule finite_subset)
  then have "\<not> inj_on (wrappingKey C) ?A" using inf finite_imageD by blast
  then show ?thesis by (auto simp add: inj_on_def)
qed

text \<open>
  With two passphrases of one wrapping key, the second decrypts what the first
  encrypted.
\<close>

lemma same_wrappingKey_decrypts:
  assumes "cryptoContract C" "fs filePath = Some envContent" "envContent \<noteq> []"
    "getSecretKey fs = Some secretKey" "secretKey \<noteq> []" "pass1 \<noteq> []" "pass2 \<noteq> []"
    "outputPath \<noteq> filePath" "restoredPath \<noteq> outputPath"
    "wrappingKey C pass2 = wrappingKey C pass1"
  shows "encryptThenDecrypt C fs rnd filePath outputPath restoredPath pass1 pass2 =
           Inr (Some envContent)"
proof -
  obtain enc out fs1 rnd1 where r:
    "cipherHex C algorithm (wrappingKey C pass1) (stake 16 rnd) (keyLabel @ secretKey) = Inr enc"
    "encryptEnv C fs rnd filePath outputPath pass1 = Inr (fs1, rnd1)"
    "fs1 outputPath = Some (joinLines ((''SECRET_KEY='' @ toHex (stake 16 rnd) @ CHR '':'' # enc) # out))"
    "splitOn NL (joinLines ((''SECRET_KEY='' @ toHex (stake 16 rnd) @ CHR '':'' # enc) # out)) =
       (''SECRET_KEY='' @ toHex (stake 16 rnd) @ CHR '':'' # enc) # out"
    "length out = length (splitOn NL envContent)"
    "\<forall>i<length out. passedThrough (splitOn NL envContent ! i) \<longrightarrow>
        out ! i = splitOn NL envContent ! i"
    "\<forall>i<length out. \<not> passedThrough (splitOn NL envContent ! i) \<longrightarrow> isToken (out ! i)"
    "\<forall>ce. decipherHex C algorithm (wrappingKey C pass2) (stake 16 rnd) enc = Inl ce \<longrightarrow>
       decryptEnv C fs1 outputPath restoredPath pass2 = Inl (CryptoFailure ce)"
    "wrappingKey C pass2 = wrappingKey C pass1 \<longrightarrow>
       decryptEnv C fs1 outputPath restoredPath pass2 =
         Inr ((fs1(restoredPath \<mapsto> envContent))(outputPath := None))"
    by (rule encrypt_then_decrypt [OF assms(1-8), of rnd restoredPath])
  show ?thesis
    unfolding encryptThenDecrypt_def using r(2,9) assms(9,10) by simp
qed

lemma wrong_passphrase_accepted:
  assumes "cryptoContract C"
  shows "\<exists>pass1 pass2. pass1 \<noteq> [] \<and> pass2 \<noteq> [] \<and> pass1 \<noteq> pass2 \<and>
           (\<forall>fs filePath envContent secretKey rnd outputPath restoredPath.
              fs filePath = Some envContent \<and> envContent \<noteq> [] \<and>
              getSecretKey fs = Some secretKey \<and> secretKey \<noteq> [] \<and>
              outputPath \<noteq> filePath \<and> restoredPath \<noteq> outputPath \<longrightarrow>
              encryptThenDecrypt C fs rnd filePath outputPath restoredPath pass1 pass2 =
                Inr (Some envContent))"
proof -
  from wrappingKey_collision [OF assms]
  obtain p1 p2 where p: "p1 \<noteq> []" "p2 \<noteq> []" "p1 \<noteq> p2" "wrappingKey C p1 = wrappingKey C p2"
    by (elim exE conjE)
  have "\<forall>fs filePath envContent secretKey rnd outputPath restoredPath.
              fs filePath = Some envContent \<and> envContent \<noteq> [] \<and>
              getSecretKey fs = Some secretKey \<and> secretKey \<noteq> [] \<and>
              outputPath \<noteq> filePath \<and> restoredPath \<noteq> outputPath \<longrightarrow>
              encryptThenDecrypt C fs rnd filePath outputPath restoredPath p1 p2 =
                Inr (Some envContent)"
  proof (intro allI impI, elim conjE)
    fix fs :: filesystem and filePath envContent secretKey rnd outputPath restoredPath
    assume "fs filePath = Some envContent" "envContent \<noteq> []"
      "getSecretKey fs = Some secretKey" "secretKey \<noteq> []"
      "outputPath \<noteq> filePath" "restoredPath \<noteq> outputPath"
    then show "encryptThenDecrypt C fs rnd filePath outputPath restoredPath p1 p2 =
                Inr (Some envContent)"
      using p(1,2) p(4) [symmetric] by (intro same_wrappingKey_decrypts [OF assms])
  qed
  with p(1-3) show ?thesis by (intro exI [of _ p1] exI [of _ p2] conjI)
qed

section \<open>Sample runs of the small instance\<close>

lemma stake_sconst_16: "stake 16 (sconst (0::byte)) = replicate 16 0"
  by (simp add: eval_nat_numeral)

lemma demo_header_pw:
  "cipherHex demoCrypto algorithm (wrappingKey demoCrypto ''pw'') (replicate 16 0)
     (keyLabel @ ''s3cr3t'') =
   Inr ''27303841352725373427412d273b1f551545541556ededededededededededed''"
  by code_simp

section \<open>The scenario of four lines on the small instance\<close>

lemma sdrop_sconst_16: "sdrop 16 (sconst (0::byte)) = sconst 0"
  by simp

lemma toHex_zero_iv: "toHex (replicate 16 0) = ''00000000000000000000000000000000''"
  by code_simp

lemma demo_line_A:
  "cipherHex demoCrypto algorithm (scryptSync demoCrypto (Str ''s3cr3t'') salt keyLength)
     (replicate 16 0) ''A=1'' = Inr ''35312501010101010101010101010101''"
  by code_simp

lemma demo_line_B:
  "cipherHex demoCrypto algorithm (scryptSync demoCrypto (Str ''s3cr3t'') salt keyLength)
     (replicate 16 0) ''B=2'' = Inr ''36312601010101010101010101010101''"
  by code_simp

lemma demo_encryptString_header:
  "encryptString demoCrypto ''ENV_SECURE_KEY=s3cr3t''
     (Buf (scryptSync demoCrypto (Str ''pw'') salt keyLength)) (sconst 0) =
   Inr (''00000000000000000000000000000000:27303841352725373427412d273b1f551545541556ededededededededededed'',
        sconst 0)"
proof -
  have "cipherHex demoCrypto algorithm
          (scryptSync demoCrypto (Buf (scryptSync demoCrypto (Str ''pw'') salt keyLength)) salt keyLength)
          (stake 16 (sconst 0)) ''ENV_SECURE_KEY=s3cr3t'' =
        Inr ''27303841352725373427412d273b1f551545541556ededededededededededed''"
    using demo_header_pw unfolding stake_sconst_16 wrappingKey_def keyLabel_def by simp
  from encryptString_explicit [OF _ _ this] show ?thesis
    unfolding stake_sconst_16 toHex_zero_iv sdrop_sconst_16 by simp
qed

lemma demo_encryptString_A:
  "encryptString demoCrypto ''A=1'' (Str ''s3cr3t'') (sconst 0) =
   Inr (''00000000000000000000000000000000:35312501010101010101010101010101'', sconst 0)"
proof -
  have "cipherHex demoCrypto algorithm (scryptSync demoCrypto (Str ''s3cr3t'') salt keyLength)
          (stake 16 (sconst 0)) ''A=1'' = Inr ''35312501010101010101010101010101''"
    unfolding stake_sconst_16 by (rule demo_line_A)
  from encryptString_explicit [OF _ _ this] show ?thesis
    unfolding stake_sconst_16 toHex_zero_iv sdrop_sconst_16 by simp
qed

lemma demo_encryptString_B:
  "encryptString demoCrypto ''B=2'' (Str ''s3cr3t'') (sconst 0) =
   Inr (''00000000000000000000000000000000:36312601010101010101010101010101'', sconst 0)"
proof -
  have "cipherHex demoCrypto algorithm (scryptSync demoCrypto (Str ''s3cr3t'') salt keyLength)
          (stake 16 (sconst 0)) ''B=2'' = Inr ''36312601010101010101010101010101''"
    unfolding stake_sconst_16 by (rule demo_line_B)
  from encryptString_explicit [OF _ _ this] show ?thesis
    unfolding stake_sconst_16 toHex_zero_iv sdrop_sconst_16 by simp
qed

lemma scenario_getSecretKey:
  "getSecretKey [envFilePath \<mapsto> ''ENV_SECURE_KEY=s3cr3t'',
                 ''config.env'' \<mapsto> joinLines [''A=1'', '''', ''#comment'', ''B=2'']] = Some ''s3cr3t''"
  by (simp add: getSecretKey_def envFilePath_def keyLabel_def startsWith_def lineTerminator_def
      trim_def whiteSpace_def)

lemma scenario_lines:
  "splitOn NL (joinLines [''A=1'', '''', ''#comment'', ''B=2'']) = [''A=1'', '''', ''#comment'', ''B=2'']"
  "\<not> passedThrough ''A=1''" "passedThrough ''''" "passedThrough ''#comment''" "\<not> passedThrough ''B=2''"
  by (simp_all add: NL_def passedThrough_def trim_def whiteSpace_def startsWith_def)

lemma scenario_encryptEnv:
  "encryptEnv demoCrypto
     [envFilePath \<mapsto> ''ENV_SECURE_KEY=s3cr3t'',
      ''config.env'' \<mapsto> joinLines [''A=1'', '''', ''#comment'', ''B=2'']]
     (sconst 0) ''config.env'' ''config.env.enc'' ''pw'' =
   Inr ([envFilePath \<mapsto> ''ENV_SECURE_KEY=s3cr3t'',
         ''config.env.enc'' \<mapsto> joinLines
           [''SECRET_KEY=00000000000000000000000000000000:27303841352725373427412d273b1f551545541556ededededededededededed'',
            ''00000000000000000000000000000000:35312501010101010101010101010101'',
            '''',
            ''#comment'',
            ''00000000000000000000000000000000:36312601010101010101010101010101'']],
        sconst 0)"
proof -
  have k: "keyLabel @ ''s3cr3t'' = ''ENV_SECURE_KEY=s3cr3t''" by (simp add: keyLabel_def)
  have c: "joinLines [''A=1'', '''', ''#comment'', ''B=2''] \<noteq> []" by simp
  have f: "''config.env'' \<noteq> envFilePath" "''config.env.enc'' \<noteq> envFilePath"
    by (simp_all add: envFilePath_def)
  show ?thesis
    unfolding encryptEnv_def scenario_getSecretKey
    using f c
    by (simp add: scenario_lines k deriveKeyFromPassphrase_def demo_encryptString_header
        demo_encryptString_A demo_encryptString_B fun_upd_twist del: joinLines.simps)
qed

section \<open>The empty passphrase\<close>

lemma decryptEnv_empty_passphrase:
  assumes "fs filePath = Some content" "splitOn NL content = h # rest" "h \<noteq> []"
    "startsWith h ''SECRET_KEY=''"
  shows "decryptEnv C fs filePath outputPath [] = Inl PassphraseEmpty"
  using assms by (simp add: decryptEnv_def deriveKeyFromPassphrase_def)

lemma list_of_length_4:
  assumes "length xs = 4"
  shows "xs = [xs ! 0, xs ! 1, xs ! 2, xs ! 3]"
proof -
  obtain a b c d where "xs = [a, b, c, d]"
    using assms by (auto simp add: eval_nat_numeral length_Suc_conv)
  then show ?thesis by simp
qed

section \<open>The fields of a token\<close>

lemma decryptString_never_format_error:
  assumes "\<not> falsy secretKey" "splitOn CHR '':'' t = ivHex # encrypted # others"
    "ivHex \<noteq> []" "encrypted \<noteq> []"
  shows "decryptString C t secretKey \<noteq> Inl InvalidEncryptedText"
  unfolding decryptString_fields [OF assms]
  by (simp split: sum.splits)

section \<open>A header that does not hold the label\<close>

lemma demo_header_hello:
  "decryptString demoCrypto ''00000000000000000000000000000000:4a474e4e51ededededededededededed''
     (Buf (scryptSync demoCrypto (Str ''pw'') salt keyLength)) = Inr ''hello''"
  by code_simp

lemma demo_hello_no_label: "matchSecretKey ''hello'' = None"
  by code_simp

section \<open>The first match of the label\<close>

lemma keyAt_Suc: "keyAt (c # cs) (Suc i) = keyAt cs i"
  by (simp add: keyAt_def)

lemma matchSecretKey_step:
  "matchSecretKey (c # cs) =
     (if keyAt (c # cs) 0
      then Some (takeWhile (\<lambda>x. \<not> lineTerminator x) (drop (length keyLabel) (c # cs)))
      else matchSecretKey cs)"
  by (simp add: keyAt_def Let_def)

lemma keyAt_Nil: "\<not> keyAt [] i"
  by (simp add: keyAt_def startsWith_def keyLabel_def)

lemma matchSecretKey_none: "(\<forall>i. \<not> keyAt s i) \<Longrightarrow> matchSecretKey s = None"
proof (induction s)
  case Nil
  then show ?case by simp
next
  case (Cons c cs)
  have "\<forall>i. \<not> keyAt cs i" using Cons.prems keyAt_Suc by blast
  then have "matchSecretKey cs = None" by (rule Cons.IH)
  moreover have "\<not> keyAt (c # cs) 0" using Cons.prems by blast
  ultimately show ?case unfolding matchSecretKey_step by simp
qed

lemma matchSecretKey_first:
  "keyAt s i \<Longrightarrow> \<forall>j<i. \<not> keyAt s j \<Longrightarrow>
     matchSecretKey s = Some (takeWhile (\<lambda>x. \<not> lineTerminator x) (drop (i + length keyLabel) s))"
proof (induction s arbitrary: i)
  case Nil
  then show ?case using keyAt_Nil by blast
next
  case (Cons c cs)
  show ?case
  proof (cases i)
    case 0
    then show ?thesis using Cons.prems(1) unfolding matchSecretKey_step by simp
  next
    case (Suc k)
    have k: "keyAt cs k" using Cons.prems(1) Suc keyAt_Suc by simp
    have "\<forall>j<k. \<not> keyAt cs j"
    proof (intro allI impI)
      fix j assume "j < k"
      then have "\<not> keyAt (c # cs) (Suc j)" using Cons.prems(2) Suc by simp
      then show "\<not> keyAt cs j" by (simp add: keyAt_Suc)
    qed
    then have "matchSecretKey cs =
        Some (takeWhile (\<lambda>x. \<not> lineTerminator x) (drop (k + length keyLabel) cs))"
      using Cons.IH [OF k] by simp
    moreover have "\<not> keyAt (c # cs) 0" using Cons.prems(2) Suc by simp
    ultimately show ?thesis unfolding matchSecretKey_step using Suc by simp
  qed
qed

section \<open>The rotate-key command and a key in a comment\<close>

lemma rotateKey_effect:
  assumes "rotateKey fs currentSecretKey newSecretKey = Inr fs'"
  shows "fs' envFilePath = Some (keyLabel @ newSecretKey @ [NL])"
    and "\<forall>p. p \<noteq> envFilePath \<longrightarrow> fs' p = fs p"
    and "getSecretKey fs = Some currentSecretKey" and "newSecretKey \<noteq> []"
  using assms by (auto simp add: rotateKey_def updateSecretKey_def split: if_splits)

lemma commented_getSecretKey:
  "getSecretKey [envFilePath \<mapsto> joinLines [''#ENV_SECURE_KEY=s3cr3t'', ''A=1'']] = Some ''s3cr3t''"
  by (simp add: getSecretKey_def keyLabel_def startsWith_def lineTerminator_def NL_def
      trim_def whiteSpace_def)

lemma commented_lines:
  "splitOn NL (joinLines [''#ENV_SECURE_KEY=s3cr3t'', ''A=1'']) = [''#ENV_SECURE_KEY=s3cr3t'', ''A=1'']"
  "passedThrough ''#ENV_SECURE_KEY=s3cr3t''"
  by (simp_all add: NL_def passedThrough_def startsWith_def)

section \<open>The instance of Node's values meets the contract\<close>

lemma node_lengths:
  "length nodeDerivedPw = 32" "length nodeWrapPw = 32" "length nodeDerivedPx = 32"
  "length nodeWrapPx = 32" "length nodeDerivedPw26 = 32" "length nodeWrapPw26 = 32"
  "length nodeLineKey = 32"
  by code_simp+

lemma node_texts:
  "nodeHeader \<noteq> []" "nodeLine \<noteq> []"
  "\<forall>c\<in>set nodeHeader. isHexDigit c" "\<forall>c\<in>set nodeLine. isHexDigit c"
  by code_simp+

lemma node_not_demo:
  "demoDecipherHex algorithm nodeWrapPw nodeIV nodeHeader = Inl BadDecrypt"
  "demoDecipherHex algorithm nodeWrapPx nodeIV nodeHeader = Inl BadDecrypt"
  "demoDecipherHex algorithm nodeWrapPw26 nodeIV nodeHeader = Inl BadDecrypt"
  "demoDecipherHex algorithm nodeLineKey nodeIV nodeLine = Inl BadDecrypt"
  by code_simp+

lemma node_garbled: "matchSecretKey nodeGarbled = None"
  by code_simp

lemma node_keys_differ:
  "nodeLineKey \<noteq> nodeWrapPw" "nodeWrapPx \<noteq> nodeWrapPw" "nodeWrapPw26 \<noteq> nodeWrapPw"
  "nodeWrapPw26 \<noteq> nodeWrapPx"
  "nodeDerivedPx \<noteq> nodeDerivedPw" "nodeDerivedPw26 \<noteq> nodeDerivedPw"
  "nodeDerivedPw26 \<noteq> nodeDerivedPx"
  by code_simp+

lemma nodeScrypt_length: "length (nodeScrypt pw s n) = n"
  by (simp add: nodeScrypt_def node_lengths keyLength_def demoScrypt_def)

lemma node_wrappingKey:
  "wrappingKey nodeCrypto ''pw'' = nodeWrapPw"
  "wrappingKey nodeCrypto ''px'' = nodeWrapPx"
  "wrappingKey nodeCrypto ''pw26'' = nodeWrapPw26"
  by (simp_all add: wrappingKey_def nodeCrypto_def nodeScrypt_def node_keys_differ)

lemma node_lineKey: "scryptSync nodeCrypto (Str ''s3cr3t'') salt keyLength = nodeLineKey"
  by (simp add: nodeCrypto_def nodeScrypt_def)

lemma node_roundtrip:
  assumes "length key = 32" "length iv = 16"
  shows "\<exists>enc. nodeCipherHex algorithm key iv t = Inr enc \<and> enc \<noteq> [] \<and>
           (\<forall>c\<in>set enc. isHexDigit c) \<and> nodeDecipherHex algorithm key iv enc = Inr t"
proof -
  consider (header) "iv = nodeIV" "t = ''ENV_SECURE_KEY=s3cr3t''" "key = nodeWrapPw"
    | (line) "iv = nodeIV" "t = ''ENV_SECURE_KEY=s3cr3t''" "key = nodeLineKey"
    | (other) "\<not> (iv = nodeIV \<and> t = ''ENV_SECURE_KEY=s3cr3t'' \<and> key = nodeWrapPw)"
        "\<not> (iv = nodeIV \<and> t = ''ENV_SECURE_KEY=s3cr3t'' \<and> key = nodeLineKey)"
    by blast
  then show ?thesis
  proof cases
    case header
    have "nodeCipherHex algorithm key iv t = Inr nodeHeader"
      using header by (simp add: nodeCipherHex_def)
    moreover have "nodeDecipherHex algorithm key iv nodeHeader = Inr t"
      using header by (simp add: nodeDecipherHex_def)
    ultimately show ?thesis using node_texts(1,3) by blast
  next
    case line
    have "nodeCipherHex algorithm key iv t = Inr nodeLine"
      using line node_keys_differ(1) by (simp add: nodeCipherHex_def)
    moreover have "nodeLine \<noteq> nodeHeader" by code_simp
    then have "nodeDecipherHex algorithm key iv nodeLine = Inr t"
      using line by (simp add: nodeDecipherHex_def)
    ultimately show ?thesis using node_texts(2,4) by blast
  next
    case other
    obtain enc where enc: "demoCipherHex algorithm key iv t = Inr enc" "enc \<noteq> []"
      "\<forall>c\<in>set enc. isHexDigit c" "demoDecipherHex algorithm key iv enc = Inr t"
      using demo_roundtrip [OF assms] by blast
    have c: "nodeCipherHex algorithm key iv t = Inr enc"
      using other enc(1) by (auto simp add: nodeCipherHex_def)
    have "nodeDecipherHex algorithm key iv enc = demoDecipherHex algorithm key iv enc"
      using enc(4) node_not_demo by (auto simp add: nodeDecipherHex_def)
    then have "nodeDecipherHex algorithm key iv enc = Inr t" using enc(4) by simp
    with c enc(2,3) show ?thesis by blast
  qed
qed

lemma nodeCrypto_contract: "cryptoContract nodeCrypto"
  unfolding cryptoContract_def
  using node_roundtrip by (simp add: nodeCrypto_def nodeScrypt_length)

section \<open>Opening the header with another passphrase\<close>

text \<open>
  What \<open>decryptEnv\<close> returns on the file that \<open>encryptEnv\<close> wrote, with any non-empty
  passphrase: it follows the decipher on the header.
\<close>

lemma encrypt_then_open_header:
  assumes "cryptoContract C" "fs filePath = Some envContent" "envContent \<noteq> []"
    "getSecretKey fs = Some secretKey" "secretKey \<noteq> []" "pass1 \<noteq> []" "pass2 \<noteq> []"
    "outputPath \<noteq> filePath"
  obtains enc out fs1 rnd1 where
    "cipherHex C algorithm (wrappingKey C pass1) (stake 16 rnd) (keyLabel @ secretKey) = Inr enc"
    "encryptEnv C fs rnd filePath outputPath pass1 = Inr (fs1, rnd1)"
    "decryptEnv C fs1 outputPath restoredPath pass2 =
       (case decipherHex C algorithm (wrappingKey C pass2) (stake 16 rnd) enc of
          Inl ce \<Rightarrow> Inl (CryptoFailure ce)
        | Inr line \<Rightarrow>
            (case matchSecretKey line of
               None \<Rightarrow> Inl SecretKeyNotFound
             | Some k \<Rightarrow>
                 (case decryptLines C k out of
                    Inl e \<Rightarrow> Inl e
                  | Inr ls \<Rightarrow> Inr ((fs1(restoredPath \<mapsto> joinLines ls))(outputPath := None)))))"
proof -
  let ?iv = "stake 16 rnd"
  obtain enc out rnd' where r:
    "cipherHex C algorithm (wrappingKey C pass1) ?iv (keyLabel @ secretKey) = Inr enc"
    "enc \<noteq> []" "\<forall>c\<in>set enc. isHexDigit c"
    "decipherHex C algorithm (wrappingKey C pass1) ?iv enc = Inr (keyLabel @ secretKey)"
    "encryptEnv C fs rnd filePath outputPath pass1 =
       Inr ((fs(outputPath \<mapsto>
               joinLines ((''SECRET_KEY='' @ toHex ?iv @ CHR '':'' # enc) # out)))
              (filePath := None), rnd')"
    "decryptLines C secretKey out = Inr (splitOn NL envContent)"
    "length out = length (splitOn NL envContent)"
    "\<forall>i<length out. passedThrough (splitOn NL envContent ! i) \<longrightarrow> out ! i = splitOn NL envContent ! i"
    "\<forall>i<length out. \<not> passedThrough (splitOn NL envContent ! i) \<longrightarrow> isToken (out ! i)"
    "\<forall>l\<in>set out. NL \<notin> set l"
    by (rule encryptEnv_result [OF assms(1-6), of rnd outputPath])
  let ?header = "toHex ?iv @ CHR '':'' # enc"
  let ?content = "joinLines ((''SECRET_KEY='' @ ?header) # out)"
  let ?fs1 = "(fs(outputPath \<mapsto> ?content))(filePath := None)"
  have tok: "isToken ?header"
    unfolding isToken_def using r(2,3) by (intro exI [of _ ?iv] exI [of _ enc]) simp
  have f1: "?fs1 outputPath = Some ?content" using assms(8) by simp
  have dec: "decryptEnv C ?fs1 outputPath restoredPath pass2 =
           (case decryptString C ?header (Buf (scryptSync C (Str pass2) salt keyLength)) of
              Inl e \<Rightarrow> Inl e
            | Inr line \<Rightarrow>
                (case matchSecretKey line of
                   None \<Rightarrow> Inl SecretKeyNotFound
                 | Some secretKey \<Rightarrow>
                     (case decryptLines C secretKey out of
                        Inl e \<Rightarrow> Inl e
                      | Inr ls \<Rightarrow> Inr ((?fs1(restoredPath \<mapsto> joinLines ls))(outputPath := None)))))"
    using decryptEnv_header [of ?fs1 outputPath ?header out pass2 C restoredPath] f1 tok r(10) assms(7)
    by blast
  have ds: "decryptString C ?header (Buf (scryptSync C (Str pass2) salt keyLength)) =
           (case decipherHex C algorithm (wrappingKey C pass2) ?iv enc of
              Inl e \<Rightarrow> Inl (CryptoFailure e)
            | Inr decrypted \<Rightarrow> Inr decrypted)"
    using decryptString_token [of "Buf (scryptSync C (Str pass2) salt keyLength)" ?iv enc C] r(2,3)
    by (simp add: wrappingKey_def)
  have d: "decryptEnv C ?fs1 outputPath restoredPath pass2 =
       (case decipherHex C algorithm (wrappingKey C pass2) ?iv enc of
          Inl ce \<Rightarrow> Inl (CryptoFailure ce)
        | Inr line \<Rightarrow>
            (case matchSecretKey line of
               None \<Rightarrow> Inl SecretKeyNotFound
             | Some k \<Rightarrow>
                 (case decryptLines C k out of
                    Inl e \<Rightarrow> Inl e
                  | Inr ls \<Rightarrow> Inr ((?fs1(restoredPath \<mapsto> joinLines ls))(outputPath := None)))))"
    unfolding dec ds by (simp split: sum.splits)
  show ?thesis by (rule that [OF r(1) r(5) d])
qed

section \<open>The run on Node's values\<close>

lemma node_file:
  "[envFilePath \<mapsto> joinLines [''ENV_SECURE_KEY=s3cr3t'']] envFilePath =
     Some (joinLines [''ENV_SECURE_KEY=s3cr3t''])"
  "\<forall>l\<in>set [''ENV_SECURE_KEY=s3cr3t'']. NL \<notin> set l"
  "\<exists>l\<in>set [''ENV_SECURE_KEY=s3cr3t'']. \<not> passedThrough l"
  "joinLines [''ENV_SECURE_KEY=s3cr3t''] \<noteq> []"
  "getSecretKey [envFilePath \<mapsto> joinLines [''ENV_SECURE_KEY=s3cr3t'']] = Some ''s3cr3t''"
  by (simp_all add: NL_def passedThrough_def trim_def whiteSpace_def startsWith_def
      getSecretKey_def keyLabel_def lineTerminator_def)

lemma node_header_pw:
  "cipherHex nodeCrypto algorithm (wrappingKey nodeCrypto ''pw'') (stake 16 (sconst 0))
     (keyLabel @ ''s3cr3t'') = Inr nodeHeader"
  unfolding node_wrappingKey stake_sconst_16
  by (simp add: nodeCrypto_def nodeCipherHex_def nodeIV_def keyLabel_def)

lemma node_header_px:
  "decipherHex nodeCrypto algorithm (wrappingKey nodeCrypto ''px'') (stake 16 (sconst 0))
     nodeHeader = Inl BadDecrypt"
  unfolding node_wrappingKey stake_sconst_16
  by (simp add: nodeCrypto_def nodeDecipherHex_def nodeIV_def node_keys_differ)

lemma node_header_pw26:
  "decipherHex nodeCrypto algorithm (wrappingKey nodeCrypto ''pw26'') (stake 16 (sconst 0))
     nodeHeader = Inr nodeGarbled"
  unfolding node_wrappingKey stake_sconst_16
  by (simp add: nodeCrypto_def nodeDecipherHex_def nodeIV_def node_keys_differ)

section \<open>The run on Node's values, the tokens\<close>

lemma node_encryptString_header:
  "encryptString nodeCrypto ''ENV_SECURE_KEY=s3cr3t''
     (Buf (scryptSync nodeCrypto (Str ''pw'') salt keyLength)) (sconst 0) =
   Inr (''00000000000000000000000000000000:f60e9ff00dd6481242ef64b9c0d00478acfd283fe94b4bc6247b02eb9ca03f94'',
        sconst 0)"
proof -
  have "cipherHex nodeCrypto algorithm
          (scryptSync nodeCrypto (Buf (scryptSync nodeCrypto (Str ''pw'') salt keyLength)) salt keyLength)
          (stake 16 (sconst 0)) ''ENV_SECURE_KEY=s3cr3t'' = Inr nodeHeader"
    using node_header_pw unfolding wrappingKey_def keyLabel_def by simp
  from encryptString_explicit [OF _ _ this] show ?thesis
    unfolding stake_sconst_16 toHex_zero_iv sdrop_sconst_16 nodeHeader_def by simp
qed

lemma node_encryptString_line:
  "encryptString nodeCrypto ''ENV_SECURE_KEY=s3cr3t'' (Str ''s3cr3t'') (sconst 0) =
   Inr (''00000000000000000000000000000000:e87752b86f0c963bd3203d3b603a9e9f39c81a552cbf8bc2574dcf09062f799d'',
        sconst 0)"
proof -
  have "cipherHex nodeCrypto algorithm (scryptSync nodeCrypto (Str ''s3cr3t'') salt keyLength)
          (stake 16 (sconst 0)) ''ENV_SECURE_KEY=s3cr3t'' = Inr nodeLine"
    unfolding node_lineKey stake_sconst_16
    by (simp add: nodeCrypto_def nodeCipherHex_def nodeIV_def node_keys_differ)
  from encryptString_explicit [OF _ _ this] show ?thesis
    unfolding stake_sconst_16 toHex_zero_iv sdrop_sconst_16 nodeLine_def by simp
qed

section \<open>The run on Node's values, the file\<close>

lemma node_lines:
  "splitOn NL (joinLines [''ENV_SECURE_KEY=s3cr3t'']) = [''ENV_SECURE_KEY=s3cr3t'']"
  "\<not> passedThrough ''ENV_SECURE_KEY=s3cr3t''"
  by (simp_all add: NL_def passedThrough_def trim_def whiteSpace_def startsWith_def)

lemma node_encryptEnv:
  "encryptEnv nodeCrypto [envFilePath \<mapsto> joinLines [''ENV_SECURE_KEY=s3cr3t'']]
     (sconst 0) envFilePath ''.env.enc'' ''pw'' =
   Inr (([envFilePath \<mapsto> joinLines [''ENV_SECURE_KEY=s3cr3t'']]
          (''.env.enc'' \<mapsto> joinLines
            [''SECRET_KEY=00000000000000000000000000000000:f60e9ff00dd6481242ef64b9c0d00478acfd283fe94b4bc6247b02eb9ca03f94'',
             ''00000000000000000000000000000000:e87752b86f0c963bd3203d3b603a9e9f39c81a552cbf8bc2574dcf09062f799d'']))
         (envFilePath := None),
        sconst 0)"
proof -
  have k: "keyLabel @ ''s3cr3t'' = ''ENV_SECURE_KEY=s3cr3t''" by (simp add: keyLabel_def)
  show ?thesis
    unfolding encryptEnv_def node_file(5)
    using node_file(4)
    by (simp add: node_lines k deriveKeyFromPassphrase_def node_encryptString_header
        node_encryptString_line del: joinLines.simps)
qed

section \<open>The claims\<close>

text \<open>\<^bold>\<open>Claim C1.\<close>
  Let a file hold the lines \<open>lines\<close>, none of which contains a line feed and one of
  which at least is a data line (neither blank nor a comment), let \<open>getSecretKey\<close>
  return a non-empty secret key and let the passphrase be non-empty. Then \<open>encryptEnv\<close>
  succeeds and writes the header and one line for each line of the input, the blank
  lines and the comments unchanged at their places; and \<open>decryptEnv\<close> with the same
  passphrase succeeds on that file and writes the lines \<open>lines\<close> back, the same lines
  in the same order. (The output of each step must not be the file it deletes.)
\<close>

theorem encryptEnv_decryptEnv_roundtrip:
  assumes "cryptoContract C"
    and "fs filePath = Some (joinLines lines)"
    and "\<forall>l\<in>set lines. NL \<notin> set l"
    and "\<exists>l\<in>set lines. \<not> passedThrough l"
    and "getSecretKey fs = Some secretKey" "secretKey \<noteq> []" "passphrase \<noteq> []"
    and "outputPath \<noteq> filePath" "restoredPath \<noteq> outputPath"
  shows "\<exists>fs1 rnd1 encLines fs2.
           encryptEnv C fs rnd filePath outputPath passphrase = Inr (fs1, rnd1) \<and>
           map_option (splitOn NL) (fs1 outputPath) = Some encLines \<and>
           length encLines = Suc (length lines) \<and>
           (\<forall>i<length lines. passedThrough (lines ! i) \<longrightarrow> encLines ! Suc i = lines ! i) \<and>
           decryptEnv C fs1 outputPath restoredPath passphrase = Inr fs2 \<and>
           map_option (splitOn NL) (fs2 restoredPath) = Some lines"
proof -
  have ne: "lines \<noteq> []" using assms(4) by auto
  have sp: "splitOn NL (joinLines lines) = lines"
    using ne assms(3) by (rule splitOn_joinLines)
  have "\<exists>l\<in>set lines. l \<noteq> []" using assms(4) not_passedThrough_nonempty by blast
  then have c: "joinLines lines \<noteq> []" by (rule joinLines_nonempty)
  obtain enc out fs1 rnd1 where r:
    "cipherHex C algorithm (wrappingKey C passphrase) (stake 16 rnd) (keyLabel @ secretKey) = Inr enc"
    "encryptEnv C fs rnd filePath outputPath passphrase = Inr (fs1, rnd1)"
    "fs1 outputPath = Some (joinLines ((''SECRET_KEY='' @ toHex (stake 16 rnd) @ CHR '':'' # enc) # out))"
    "splitOn NL (joinLines ((''SECRET_KEY='' @ toHex (stake 16 rnd) @ CHR '':'' # enc) # out)) =
       (''SECRET_KEY='' @ toHex (stake 16 rnd) @ CHR '':'' # enc) # out"
    "length out = length (splitOn NL (joinLines lines))"
    "\<forall>i<length out. passedThrough (splitOn NL (joinLines lines) ! i) \<longrightarrow>
        out ! i = splitOn NL (joinLines lines) ! i"
    "\<forall>i<length out. \<not> passedThrough (splitOn NL (joinLines lines) ! i) \<longrightarrow> isToken (out ! i)"
    "\<forall>ce. decipherHex C algorithm (wrappingKey C passphrase) (stake 16 rnd) enc = Inl ce \<longrightarrow>
       decryptEnv C fs1 outputPath restoredPath passphrase = Inl (CryptoFailure ce)"
    "wrappingKey C passphrase = wrappingKey C passphrase \<longrightarrow>
       decryptEnv C fs1 outputPath restoredPath passphrase =
         Inr ((fs1(restoredPath \<mapsto> joinLines lines))(outputPath := None))"
    by (rule encrypt_then_decrypt [OF assms(1,2) c assms(5,6,7,7,8), of rnd restoredPath])
  let ?encLines = "(''SECRET_KEY='' @ toHex (stake 16 rnd) @ CHR '':'' # enc) # out"
  let ?fs2 = "(fs1(restoredPath \<mapsto> joinLines lines))(outputPath := None)"
  have 1: "map_option (splitOn NL) (fs1 outputPath) = Some ?encLines"
    unfolding r(3) using r(4) by simp
  have 2: "length ?encLines = Suc (length lines)" using r(5) sp by simp
  have 3: "\<forall>i<length lines. passedThrough (lines ! i) \<longrightarrow> ?encLines ! Suc i = lines ! i"
    using r(5,6) sp by simp
  have 4: "decryptEnv C fs1 outputPath restoredPath passphrase = Inr ?fs2"
    using r(9) by simp
  have 5: "map_option (splitOn NL) (?fs2 restoredPath) = Some lines"
    using assms(9) sp by simp
  from r(2) 1 2 3 4 5 show ?thesis by blast
qed

theorem encryptEnv_decryptEnv_roundtrip_witness:
  "cryptoContract demoCrypto \<and>
   [envFilePath \<mapsto> joinLines [''ENV_SECURE_KEY=s3cr3t'', ''A=1'']] envFilePath =
     Some (joinLines [''ENV_SECURE_KEY=s3cr3t'', ''A=1'']) \<and>
   (\<exists>fs1 rnd1 encLines fs2.
      encryptEnv demoCrypto [envFilePath \<mapsto> joinLines [''ENV_SECURE_KEY=s3cr3t'', ''A=1'']]
        (sconst 0) envFilePath ''.env.enc'' ''pw'' = Inr (fs1, rnd1) \<and>
      map_option (splitOn NL) (fs1 ''.env.enc'') = Some encLines \<and>
      length encLines = 3 \<and>
      decryptEnv demoCrypto fs1 ''.env.enc'' envFilePath ''pw'' = Inr fs2 \<and>
      map_option (splitOn NL) (fs2 envFilePath) = Some [''ENV_SECURE_KEY=s3cr3t'', ''A=1''])"
proof -
  let ?lines = "[''ENV_SECURE_KEY=s3cr3t'', ''A=1'']"
  let ?fs = "[envFilePath \<mapsto> joinLines ?lines]"
  have 1: "?fs envFilePath = Some (joinLines ?lines)" by simp
  have 2: "\<forall>l\<in>set ?lines. NL \<notin> set l" by (simp add: NL_def)
  have 3: "\<exists>l\<in>set ?lines. \<not> passedThrough l"
    by (simp add: passedThrough_def trim_def whiteSpace_def startsWith_def)
  have 4: "''s3cr3t'' \<noteq> []" "''pw'' \<noteq> []" "''.env.enc'' \<noteq> envFilePath" "envFilePath \<noteq> ''.env.enc''"
    by (simp_all add: envFilePath_def)
  show ?thesis
    using encryptEnv_decryptEnv_roundtrip [OF demoCrypto_contract 1 2 3 demo_getSecretKey 4,
        of "sconst 0"] demoCrypto_contract
    by auto
qed

text \<open>\<^bold>\<open>Claim C2\<close> (a run of the code against the claim).
  The file \<open>.env\<close> holds the comment \<open>#ENV_SECURE_KEY=s3cr3t\<close> and the line \<open>A=1\<close>.
  \<open>getSecretKey\<close> returns \<open>s3cr3t\<close>, and the file that \<open>encryptEnv\<close> writes holds the
  comment as it was: its line 1 shows the secret key.
\<close>

theorem commented_key_stays_readable:
  "getSecretKey [envFilePath \<mapsto> joinLines [''#ENV_SECURE_KEY=s3cr3t'', ''A=1'']] = Some ''s3cr3t'' \<and>
   writtenLines
     (encryptEnv demoCrypto [envFilePath \<mapsto> joinLines [''#ENV_SECURE_KEY=s3cr3t'', ''A=1'']]
        (sconst 0) envFilePath ''.env.enc'' ''pw'')
     ''.env.enc'' =
   Inr (Some
     [''SECRET_KEY=00000000000000000000000000000000:27303841352725373427412d273b1f551545541556ededededededededededed'',
      ''#ENV_SECURE_KEY=s3cr3t'',
      ''00000000000000000000000000000000:35312501010101010101010101010101''])"
proof -
  let ?out =
    "[''SECRET_KEY=00000000000000000000000000000000:27303841352725373427412d273b1f551545541556ededededededededededed'',
      ''#ENV_SECURE_KEY=s3cr3t'',
      ''00000000000000000000000000000000:35312501010101010101010101010101'']"
  let ?fs = "[envFilePath \<mapsto> joinLines [''#ENV_SECURE_KEY=s3cr3t'', ''A=1'']]"
  have k: "keyLabel @ ''s3cr3t'' = ''ENV_SECURE_KEY=s3cr3t''" by (simp add: keyLabel_def)
  have c: "joinLines [''#ENV_SECURE_KEY=s3cr3t'', ''A=1''] \<noteq> []" by simp
  have f: "''.env.enc'' \<noteq> envFilePath" by (simp add: envFilePath_def)
  have e: "encryptEnv demoCrypto ?fs (sconst 0) envFilePath ''.env.enc'' ''pw'' =
      Inr ((?fs(''.env.enc'' \<mapsto> joinLines ?out))(envFilePath := None), sconst 0)"
    unfolding encryptEnv_def commented_getSecretKey
    using c
    by (simp add: commented_lines scenario_lines k deriveKeyFromPassphrase_def
        demo_encryptString_header demo_encryptString_A del: joinLines.simps)
  have sp: "splitOn NL (joinLines ?out) = ?out"
    by (rule splitOn_joinLines) (simp_all add: NL_def)
  have "writtenLines (encryptEnv demoCrypto ?fs (sconst 0) envFilePath ''.env.enc'' ''pw'')
      ''.env.enc'' = Inr (Some ?out)"
    unfolding e writtenLines_def using f sp by simp
  with commented_getSecretKey show ?thesis by (intro conjI)
qed

text \<open>\<^bold>\<open>Claim C3\<close> (as amended).
  Let a file hold the four lines \<open>A=1\<close>, the empty line, \<open>#comment\<close> and \<open>B=2\<close>, and let
  the secret key be \<open>s3cr3t\<close>. With the passphrase \<open>pw\<close>, \<open>encryptEnv\<close> writes five
  lines: the header and one line for each line of the input, of which the lines 2 and
  3 (the header being line 0) are the empty line and \<open>#comment\<close>, unchanged, and the
  lines 1 and 4 are tokens. \<open>decryptEnv\<close> with \<open>pw\<close> writes the four lines back. With a
  non-empty passphrase under whose wrapping key the decipher rejects the header,
  \<open>decryptEnv\<close> fails with that error of the crypto module; with the empty passphrase it
  fails with the error of an empty passphrase.
\<close>

theorem scenario_four_lines:
  assumes "cryptoContract C"
    and "fs filePath = Some (joinLines [''A=1'', '''', ''#comment'', ''B=2''])"
    and "getSecretKey fs = Some ''s3cr3t''"
    and "outputPath \<noteq> filePath" "restoredPath \<noteq> outputPath"
  shows "\<exists>fs1 rnd1 enc t1 t2 fs2.
           encryptEnv C fs rnd filePath outputPath ''pw'' = Inr (fs1, rnd1) \<and>
           map_option (splitOn NL) (fs1 outputPath) =
             Some [''SECRET_KEY='' @ toHex (stake 16 rnd) @ CHR '':'' # enc,
                   t1, '''', ''#comment'', t2] \<and>
           isToken t1 \<and> isToken t2 \<and>
           decryptEnv C fs1 outputPath restoredPath ''pw'' = Inr fs2 \<and>
           map_option (splitOn NL) (fs2 restoredPath) = Some [''A=1'', '''', ''#comment'', ''B=2''] \<and>
           (\<forall>p ce. p \<noteq> [] \<and>
                decipherHex C algorithm (wrappingKey C p) (stake 16 rnd) enc = Inl ce \<longrightarrow>
                decryptEnv C fs1 outputPath restoredPath p = Inl (CryptoFailure ce)) \<and>
           decryptEnv C fs1 outputPath restoredPath [] = Inl PassphraseEmpty"
proof -
  let ?lines = "[''A=1'', '''', ''#comment'', ''B=2'']"
  let ?iv = "stake 16 rnd"
  have c: "joinLines ?lines \<noteq> []" by simp
  have s: "''s3cr3t'' \<noteq> []" "''pw'' \<noteq> []" by simp_all
  obtain enc out fs1 rnd1 where r:
    "cipherHex C algorithm (wrappingKey C ''pw'') ?iv (keyLabel @ ''s3cr3t'') = Inr enc"
    "encryptEnv C fs rnd filePath outputPath ''pw'' = Inr (fs1, rnd1)"
    "fs1 outputPath = Some (joinLines ((''SECRET_KEY='' @ toHex ?iv @ CHR '':'' # enc) # out))"
    "splitOn NL (joinLines ((''SECRET_KEY='' @ toHex ?iv @ CHR '':'' # enc) # out)) =
       (''SECRET_KEY='' @ toHex ?iv @ CHR '':'' # enc) # out"
    "length out = length (splitOn NL (joinLines ?lines))"
    "\<forall>i<length out. passedThrough (splitOn NL (joinLines ?lines) ! i) \<longrightarrow>
        out ! i = splitOn NL (joinLines ?lines) ! i"
    "\<forall>i<length out. \<not> passedThrough (splitOn NL (joinLines ?lines) ! i) \<longrightarrow> isToken (out ! i)"
    "\<forall>ce. decipherHex C algorithm (wrappingKey C ''pw'') ?iv enc = Inl ce \<longrightarrow>
       decryptEnv C fs1 outputPath restoredPath ''pw'' = Inl (CryptoFailure ce)"
    "wrappingKey C ''pw'' = wrappingKey C ''pw'' \<longrightarrow>
       decryptEnv C fs1 outputPath restoredPath ''pw'' =
         Inr ((fs1(restoredPath \<mapsto> joinLines ?lines))(outputPath := None))"
    by (rule encrypt_then_decrypt [OF assms(1,2) c assms(3) s s(2) assms(4), of rnd restoredPath])
  let ?header = "''SECRET_KEY='' @ toHex ?iv @ CHR '':'' # enc"
  let ?fs2 = "(fs1(restoredPath \<mapsto> joinLines ?lines))(outputPath := None)"
  have len: "length out = 4" using r(5) unfolding scenario_lines(1) by simp
  have o1: "isToken (out ! 0)" using r(7) len scenario_lines(2) unfolding scenario_lines(1) by simp
  have o2: "out ! 1 = ''''" using r(6) len scenario_lines(3) unfolding scenario_lines(1) by simp
  have o3: "out ! 2 = ''#comment''"
    using r(6) len scenario_lines(4) unfolding scenario_lines(1) by simp
  have o4: "isToken (out ! 3)" using r(7) len scenario_lines(5) unfolding scenario_lines(1) by simp
  have out: "out = [out ! 0, '''', ''#comment'', out ! 3]"
    using list_of_length_4 [OF len] o2 o3 by simp
  have 1: "map_option (splitOn NL) (fs1 outputPath) =
             Some [?header, out ! 0, '''', ''#comment'', out ! 3]"
    unfolding r(3) using r(4) out by simp
  have 2: "decryptEnv C fs1 outputPath restoredPath ''pw'' = Inr ?fs2" using r(9) by simp
  have 3: "map_option (splitOn NL) (?fs2 restoredPath) = Some ?lines"
    using assms(5) scenario_lines(1) by simp
  have 4: "\<forall>p ce. p \<noteq> [] \<and> decipherHex C algorithm (wrappingKey C p) ?iv enc = Inl ce \<longrightarrow>
                decryptEnv C fs1 outputPath restoredPath p = Inl (CryptoFailure ce)"
  proof (intro allI impI, elim conjE)
    fix p ce
    assume p: "p \<noteq> []" and d: "decipherHex C algorithm (wrappingKey C p) ?iv enc = Inl ce"
    obtain enc' out' fs1' rnd1' where r':
      "cipherHex C algorithm (wrappingKey C ''pw'') ?iv (keyLabel @ ''s3cr3t'') = Inr enc'"
      "encryptEnv C fs rnd filePath outputPath ''pw'' = Inr (fs1', rnd1')"
      "fs1' outputPath = Some (joinLines ((''SECRET_KEY='' @ toHex ?iv @ CHR '':'' # enc') # out'))"
      "splitOn NL (joinLines ((''SECRET_KEY='' @ toHex ?iv @ CHR '':'' # enc') # out')) =
         (''SECRET_KEY='' @ toHex ?iv @ CHR '':'' # enc') # out'"
      "length out' = length (splitOn NL (joinLines ?lines))"
      "\<forall>i<length out'. passedThrough (splitOn NL (joinLines ?lines) ! i) \<longrightarrow>
          out' ! i = splitOn NL (joinLines ?lines) ! i"
      "\<forall>i<length out'. \<not> passedThrough (splitOn NL (joinLines ?lines) ! i) \<longrightarrow> isToken (out' ! i)"
      "\<forall>ce. decipherHex C algorithm (wrappingKey C p) ?iv enc' = Inl ce \<longrightarrow>
         decryptEnv C fs1' outputPath restoredPath p = Inl (CryptoFailure ce)"
      "wrappingKey C p = wrappingKey C ''pw'' \<longrightarrow>
         decryptEnv C fs1' outputPath restoredPath p =
           Inr ((fs1'(restoredPath \<mapsto> joinLines ?lines))(outputPath := None))"
      by (rule encrypt_then_decrypt [OF assms(1,2) c assms(3) s p assms(4), of rnd restoredPath])
    have "enc' = enc" "fs1' = fs1" using r(1,2) r'(1,2) by simp_all
    then show "decryptEnv C fs1 outputPath restoredPath p = Inl (CryptoFailure ce)"
      using r'(8) d by simp
  qed
  have st: "?header \<noteq> []" "startsWith ?header ''SECRET_KEY=''" by (simp_all add: startsWith_def)
  have 5: "decryptEnv C fs1 outputPath restoredPath [] = Inl PassphraseEmpty"
    using decryptEnv_empty_passphrase [of fs1 outputPath _ ?header out C restoredPath] r(3,4) st
    by blast
  from r(2) 1 o1 o4 2 3 4 5 show ?thesis by blast
qed

theorem scenario_four_lines_witness:
  "cryptoContract demoCrypto \<and>
   [envFilePath \<mapsto> ''ENV_SECURE_KEY=s3cr3t'',
    ''config.env'' \<mapsto> joinLines [''A=1'', '''', ''#comment'', ''B=2'']] ''config.env'' =
     Some (joinLines [''A=1'', '''', ''#comment'', ''B=2'']) \<and>
   getSecretKey [envFilePath \<mapsto> ''ENV_SECURE_KEY=s3cr3t'',
                 ''config.env'' \<mapsto> joinLines [''A=1'', '''', ''#comment'', ''B=2'']] =
     Some ''s3cr3t'' \<and>
   (\<exists>fs1 rnd1 enc t1 t2 fs2.
      encryptEnv demoCrypto
        [envFilePath \<mapsto> ''ENV_SECURE_KEY=s3cr3t'',
         ''config.env'' \<mapsto> joinLines [''A=1'', '''', ''#comment'', ''B=2'']]
        (sconst 0) ''config.env'' ''config.env.enc'' ''pw'' = Inr (fs1, rnd1) \<and>
      map_option (splitOn NL) (fs1 ''config.env.enc'') =
        Some [''SECRET_KEY='' @ toHex (stake 16 (sconst 0)) @ CHR '':'' # enc,
              t1, '''', ''#comment'', t2] \<and>
      isToken t1 \<and> isToken t2 \<and>
      decryptEnv demoCrypto fs1 ''config.env.enc'' ''config.env'' ''pw'' = Inr fs2 \<and>
      map_option (splitOn NL) (fs2 ''config.env'') = Some [''A=1'', '''', ''#comment'', ''B=2''] \<and>
      (\<forall>p ce. p \<noteq> [] \<and>
           decipherHex demoCrypto algorithm (wrappingKey demoCrypto p) (stake 16 (sconst 0)) enc =
             Inl ce \<longrightarrow>
           decryptEnv demoCrypto fs1 ''config.env.enc'' ''config.env'' p = Inl (CryptoFailure ce)) \<and>
      decryptEnv demoCrypto fs1 ''config.env.enc'' ''config.env'' [] = Inl PassphraseEmpty)"
proof -
  let ?fs = "[envFilePath \<mapsto> ''ENV_SECURE_KEY=s3cr3t'',
              ''config.env'' \<mapsto> joinLines [''A=1'', '''', ''#comment'', ''B=2'']]"
  have 1: "?fs ''config.env'' = Some (joinLines [''A=1'', '''', ''#comment'', ''B=2''])"
    by simp
  have 2: "''config.env.enc'' \<noteq> ''config.env''" "''config.env'' \<noteq> ''config.env.enc''"
    by simp_all
  from demoCrypto_contract 1 scenario_getSecretKey
    scenario_four_lines [OF demoCrypto_contract 1 scenario_getSecretKey 2, of "sconst 0"]
  show ?thesis by (intro conjI)
qed

theorem scenario_four_lines_counterexample:
  "writtenLines
     (encryptEnv demoCrypto
        [envFilePath \<mapsto> ''ENV_SECURE_KEY=s3cr3t'',
         ''config.env'' \<mapsto> joinLines [''A=1'', '''', ''#comment'', ''B=2'']]
        (sconst 0) ''config.env'' ''config.env.enc'' ''pw'')
     ''config.env.enc'' =
   Inr (Some
     [''SECRET_KEY=00000000000000000000000000000000:27303841352725373427412d273b1f551545541556ededededededededededed'',
      ''00000000000000000000000000000000:35312501010101010101010101010101'',
      '''',
      ''#comment'',
      ''00000000000000000000000000000000:36312601010101010101010101010101'']) \<and>
   encryptThenDecrypt demoCrypto
     [envFilePath \<mapsto> ''ENV_SECURE_KEY=s3cr3t'',
      ''config.env'' \<mapsto> joinLines [''A=1'', '''', ''#comment'', ''B=2'']]
     (sconst 0) ''config.env'' ''config.env.enc'' ''config.env'' ''pw'' [] =
   Inl PassphraseEmpty"
proof -
  let ?out =
    "[''SECRET_KEY=00000000000000000000000000000000:27303841352725373427412d273b1f551545541556ededededededededededed'',
      ''00000000000000000000000000000000:35312501010101010101010101010101'',
      '''',
      ''#comment'',
      ''00000000000000000000000000000000:36312601010101010101010101010101'']"
  let ?fs1 = "[envFilePath \<mapsto> ''ENV_SECURE_KEY=s3cr3t'', ''config.env.enc'' \<mapsto> joinLines ?out]"
  have sp: "splitOn NL (joinLines ?out) = ?out"
    by (rule splitOn_joinLines) (simp_all add: NL_def)
  have f: "?fs1 ''config.env.enc'' = Some (joinLines ?out)" by simp
  have 1: "writtenLines (Inr (?fs1, sconst 0)) ''config.env.enc'' = Inr (Some ?out)"
    unfolding writtenLines_def using sp by simp
  have "decryptEnv demoCrypto ?fs1 ''config.env.enc'' ''config.env'' [] = Inl PassphraseEmpty"
    by (rule decryptEnv_empty_passphrase [of ?fs1 _ "joinLines ?out" "hd ?out" "tl ?out"])
      (simp_all add: sp startsWith_def del: joinLines.simps)
  then have 2: "(case Inr (?fs1, sconst (0::byte)) of
        Inl e \<Rightarrow> Inl e
      | Inr (fs1, rnd1) \<Rightarrow>
          (case decryptEnv demoCrypto fs1 ''config.env.enc'' ''config.env'' [] of
             Inl e \<Rightarrow> Inl e
           | Inr fs2 \<Rightarrow> Inr (fs2 ''config.env''))) = Inl PassphraseEmpty"
    by simp
  show ?thesis
    unfolding encryptThenDecrypt_def scenario_encryptEnv using 1 2 by (intro conjI)
qed

text \<open>\<^bold>\<open>Claim C4\<close> (a run of the code against the claim).
  The file \<open>.env\<close> holds the secret key \<open>old\<close> and the lines \<open>A=1\<close> and \<open>B=2\<close>. The
  \<open>rotate-key\<close> command, with the current key \<open>old\<close> and the new key \<open>new\<close>, leaves a file
  of one line, the new key: the lines \<open>A=1\<close> and \<open>B=2\<close> are gone.
\<close>

theorem rotateKey_drops_other_lines:
  "rotateKey [envFilePath \<mapsto> joinLines [''ENV_SECURE_KEY=old'', ''A=1'', ''B=2'']] ''old'' ''new'' =
     Inr [envFilePath \<mapsto> joinLines [''ENV_SECURE_KEY=new'', '''']]"
  by (simp add: rotateKey_def isSecretKeySet_def getSecretKey_def updateSecretKey_def
      keyLabel_def startsWith_def lineTerminator_def NL_def trim_def whiteSpace_def)

text \<open>\<^bold>\<open>Claim C5.\<close>
  For every non-empty text \<open>p\<close> and every key \<open>k\<close> that is not the empty string,
  \<open>encryptString\<close> returns a token, and \<open>decryptString\<close> with the same key returns
  \<open>p\<close> from that token.
\<close>

theorem encryptString_roundtrip:
  assumes "cryptoContract C" "p \<noteq> []" "\<not> falsy k"
  shows "\<exists>token rnd'. encryptString C p k rnd = Inr (token, rnd') \<and>
           decryptString C token k = Inr p"
  using encryptString_decryptString [OF assms] by metis

theorem encryptString_roundtrip_witness:
  "cryptoContract demoCrypto \<and> ''A=1'' \<noteq> [] \<and> \<not> falsy (Str ''s3cr3t'') \<and>
   (\<exists>token rnd'. encryptString demoCrypto ''A=1'' (Str ''s3cr3t'') (sconst 7) = Inr (token, rnd') \<and>
      decryptString demoCrypto token (Str ''s3cr3t'') = Inr ''A=1'')"
  using encryptString_roundtrip [OF demoCrypto_contract, of "''A=1''" "Str ''s3cr3t''" "sconst 7"]
    demoCrypto_contract
  by simp

text \<open>\<^bold>\<open>Claim C6\<close> (as amended).
  Let \<open>encryptEnv\<close> run with the passphrase \<open>pass1\<close> on a file with at least one data
  line and a non-empty secret key, and let \<open>pass2\<close> be a non-empty passphrase.
  \<open>decryptEnv\<close> with \<open>pass2\<close> has no check of the passphrase but the decipher's: if the
  decipher, under the wrapping key of \<open>pass2\<close>, rejects the header that the cipher
  produced under the wrapping key of \<open>pass1\<close>, \<open>decryptEnv\<close> fails with that error of
  the crypto module; if the decipher accepts the header and returns a text in which
  the pattern of the label does not match, \<open>decryptEnv\<close> fails with the error of an
  invalid encrypted file. In both cases it writes nothing.
\<close>

theorem wrong_passphrase_outcome:
  assumes "cryptoContract C"
    and "fs filePath = Some (joinLines lines)"
    and "\<forall>l\<in>set lines. NL \<notin> set l"
    and "\<exists>l\<in>set lines. \<not> passedThrough l"
    and "getSecretKey fs = Some secretKey" "secretKey \<noteq> []"
    and "pass1 \<noteq> []" "pass2 \<noteq> []"
    and "outputPath \<noteq> filePath"
    and "cipherHex C algorithm (wrappingKey C pass1) (stake 16 rnd) (keyLabel @ secretKey) = Inr enc"
  shows "\<exists>fs1 rnd1.
           encryptEnv C fs rnd filePath outputPath pass1 = Inr (fs1, rnd1) \<and>
           (\<forall>ce. decipherHex C algorithm (wrappingKey C pass2) (stake 16 rnd) enc = Inl ce \<longrightarrow>
              decryptEnv C fs1 outputPath restoredPath pass2 = Inl (CryptoFailure ce)) \<and>
           (\<forall>t. decipherHex C algorithm (wrappingKey C pass2) (stake 16 rnd) enc = Inr t \<and>
                matchSecretKey t = None \<longrightarrow>
              decryptEnv C fs1 outputPath restoredPath pass2 = Inl SecretKeyNotFound)"
proof -
  have "\<exists>l\<in>set lines. l \<noteq> []" using assms(4) not_passedThrough_nonempty by blast
  then have c: "joinLines lines \<noteq> []" by (rule joinLines_nonempty)
  obtain enc' out fs1 rnd1 where r:
    "cipherHex C algorithm (wrappingKey C pass1) (stake 16 rnd) (keyLabel @ secretKey) = Inr enc'"
    "encryptEnv C fs rnd filePath outputPath pass1 = Inr (fs1, rnd1)"
    "decryptEnv C fs1 outputPath restoredPath pass2 =
       (case decipherHex C algorithm (wrappingKey C pass2) (stake 16 rnd) enc' of
          Inl ce \<Rightarrow> Inl (CryptoFailure ce)
        | Inr line \<Rightarrow>
            (case matchSecretKey line of
               None \<Rightarrow> Inl SecretKeyNotFound
             | Some k \<Rightarrow>
                 (case decryptLines C k out of
                    Inl e \<Rightarrow> Inl e
                  | Inr ls \<Rightarrow> Inr ((fs1(restoredPath \<mapsto> joinLines ls))(outputPath := None)))))"
    by (rule encrypt_then_open_header [OF assms(1,2) c assms(5-9), of rnd restoredPath])
  have e: "enc' = enc" using r(1) assms(10) by simp
  have 1: "\<forall>ce. decipherHex C algorithm (wrappingKey C pass2) (stake 16 rnd) enc = Inl ce \<longrightarrow>
              decryptEnv C fs1 outputPath restoredPath pass2 = Inl (CryptoFailure ce)"
    unfolding r(3) e by simp
  have 2: "\<forall>t. decipherHex C algorithm (wrappingKey C pass2) (stake 16 rnd) enc = Inr t \<and>
                matchSecretKey t = None \<longrightarrow>
              decryptEnv C fs1 outputPath restoredPath pass2 = Inl SecretKeyNotFound"
    unfolding r(3) e by simp
  from r(2) 1 2 show ?thesis by blast
qed

theorem wrong_passphrase_outcome_witness:
  "cryptoContract nodeCrypto \<and>
   getSecretKey [envFilePath \<mapsto> joinLines [''ENV_SECURE_KEY=s3cr3t'']] = Some ''s3cr3t'' \<and>
   cipherHex nodeCrypto algorithm (wrappingKey nodeCrypto ''pw'') (stake 16 (sconst 0))
     (keyLabel @ ''s3cr3t'') = Inr nodeHeader \<and>
   decipherHex nodeCrypto algorithm (wrappingKey nodeCrypto ''px'') (stake 16 (sconst 0))
     nodeHeader = Inl BadDecrypt \<and>
   decipherHex nodeCrypto algorithm (wrappingKey nodeCrypto ''pw26'') (stake 16 (sconst 0))
     nodeHeader = Inr nodeGarbled \<and>
   matchSecretKey nodeGarbled = None \<and>
   (\<exists>fs1 rnd1.
      encryptEnv nodeCrypto [envFilePath \<mapsto> joinLines [''ENV_SECURE_KEY=s3cr3t'']]
        (sconst 0) envFilePath ''.env.enc'' ''pw'' = Inr (fs1, rnd1) \<and>
      decryptEnv nodeCrypto fs1 ''.env.enc'' envFilePath ''px'' = Inl (CryptoFailure BadDecrypt) \<and>
      decryptEnv nodeCrypto fs1 ''.env.enc'' envFilePath ''pw26'' = Inl SecretKeyNotFound)"
proof -
  let ?fs = "[envFilePath \<mapsto> joinLines [''ENV_SECURE_KEY=s3cr3t'']]"
  have p: "''s3cr3t'' \<noteq> []" "''pw'' \<noteq> []" "''px'' \<noteq> []" "''pw26'' \<noteq> []"
    "''.env.enc'' \<noteq> envFilePath"
    by (simp_all add: envFilePath_def)
  obtain fs1 rnd1 where a:
    "encryptEnv nodeCrypto ?fs (sconst 0) envFilePath ''.env.enc'' ''pw'' = Inr (fs1, rnd1)"
    "\<forall>ce. decipherHex nodeCrypto algorithm (wrappingKey nodeCrypto ''px'') (stake 16 (sconst 0))
            nodeHeader = Inl ce \<longrightarrow>
          decryptEnv nodeCrypto fs1 ''.env.enc'' envFilePath ''px'' = Inl (CryptoFailure ce)"
    using wrong_passphrase_outcome [OF nodeCrypto_contract node_file(1,2,3,5) p(1,2,3,5)
        node_header_pw, of envFilePath]
    by blast
  obtain fs1' rnd1' where b:
    "encryptEnv nodeCrypto ?fs (sconst 0) envFilePath ''.env.enc'' ''pw'' = Inr (fs1', rnd1')"
    "\<forall>t. decipherHex nodeCrypto algorithm (wrappingKey nodeCrypto ''pw26'') (stake 16 (sconst 0))
            nodeHeader = Inr t \<and> matchSecretKey t = None \<longrightarrow>
          decryptEnv nodeCrypto fs1' ''.env.enc'' envFilePath ''pw26'' = Inl SecretKeyNotFound"
    using wrong_passphrase_outcome [OF nodeCrypto_contract node_file(1,2,3,5) p(1,2,4,5)
        node_header_pw, of envFilePath]
    by blast
  have same: "fs1' = fs1" using a(1) b(1) by simp
  have 1: "decryptEnv nodeCrypto fs1 ''.env.enc'' envFilePath ''px'' = Inl (CryptoFailure BadDecrypt)"
    using a(2) node_header_px by blast
  have 2: "decryptEnv nodeCrypto fs1 ''.env.enc'' envFilePath ''pw26'' = Inl SecretKeyNotFound"
    using b(2) node_header_pw26 node_garbled same by blast
  have "\<exists>fs1 rnd1.
      encryptEnv nodeCrypto ?fs (sconst 0) envFilePath ''.env.enc'' ''pw'' = Inr (fs1, rnd1) \<and>
      decryptEnv nodeCrypto fs1 ''.env.enc'' envFilePath ''px'' = Inl (CryptoFailure BadDecrypt) \<and>
      decryptEnv nodeCrypto fs1 ''.env.enc'' envFilePath ''pw26'' = Inl SecretKeyNotFound"
    using a(1) 1 2 by blast
  with nodeCrypto_contract node_file(5) node_header_pw node_header_px node_header_pw26 node_garbled
  show ?thesis by (intro conjI)
qed

theorem wrong_passphrase_counterexample:
  "''pw26'' \<noteq> ''pw'' \<and>
   writtenLines
     (encryptEnv nodeCrypto [envFilePath \<mapsto> joinLines [''ENV_SECURE_KEY=s3cr3t'']]
        (sconst 0) envFilePath ''.env.enc'' ''pw'')
     ''.env.enc'' =
   Inr (Some
     [''SECRET_KEY=00000000000000000000000000000000:f60e9ff00dd6481242ef64b9c0d00478acfd283fe94b4bc6247b02eb9ca03f94'',
      ''00000000000000000000000000000000:e87752b86f0c963bd3203d3b603a9e9f39c81a552cbf8bc2574dcf09062f799d'']) \<and>
   encryptThenDecrypt nodeCrypto [envFilePath \<mapsto> joinLines [''ENV_SECURE_KEY=s3cr3t'']]
     (sconst 0) envFilePath ''.env.enc'' envFilePath ''pw'' ''pw26'' =
   Inl SecretKeyNotFound"
proof -
  let ?fs = "[envFilePath \<mapsto> joinLines [''ENV_SECURE_KEY=s3cr3t'']]"
  let ?out =
    "[''SECRET_KEY=00000000000000000000000000000000:f60e9ff00dd6481242ef64b9c0d00478acfd283fe94b4bc6247b02eb9ca03f94'',
      ''00000000000000000000000000000000:e87752b86f0c963bd3203d3b603a9e9f39c81a552cbf8bc2574dcf09062f799d'']"
  have p: "''s3cr3t'' \<noteq> []" "''pw'' \<noteq> []" "''pw26'' \<noteq> []" "''.env.enc'' \<noteq> envFilePath"
    by (simp_all add: envFilePath_def)
  have sp: "splitOn NL (joinLines ?out) = ?out"
    by (rule splitOn_joinLines) (simp_all add: NL_def)
  have 1: "writtenLines (encryptEnv nodeCrypto ?fs (sconst 0) envFilePath ''.env.enc'' ''pw'')
      ''.env.enc'' = Inr (Some ?out)"
    unfolding node_encryptEnv writtenLines_def using p(4) sp by simp
  obtain enc out fs1 rnd1 where r:
    "cipherHex nodeCrypto algorithm (wrappingKey nodeCrypto ''pw'') (stake 16 (sconst 0))
       (keyLabel @ ''s3cr3t'') = Inr enc"
    "encryptEnv nodeCrypto ?fs (sconst 0) envFilePath ''.env.enc'' ''pw'' = Inr (fs1, rnd1)"
    "decryptEnv nodeCrypto fs1 ''.env.enc'' envFilePath ''pw26'' =
       (case decipherHex nodeCrypto algorithm (wrappingKey nodeCrypto ''pw26'') (stake 16 (sconst 0)) enc of
          Inl ce \<Rightarrow> Inl (CryptoFailure ce)
        | Inr line \<Rightarrow>
            (case matchSecretKey line of
               None \<Rightarrow> Inl SecretKeyNotFound
             | Some k \<Rightarrow>
                 (case decryptLines nodeCrypto k out of
                    Inl e \<Rightarrow> Inl e
                  | Inr ls \<Rightarrow> Inr ((fs1(envFilePath \<mapsto> joinLines ls))(''.env.enc'' := None)))))"
    by (rule encrypt_then_open_header [OF nodeCrypto_contract node_file(1,4,5) p,
          of "sconst 0" envFilePath])
  have e: "enc = nodeHeader" using r(1) node_header_pw by simp
  have d: "decryptEnv nodeCrypto fs1 ''.env.enc'' envFilePath ''pw26'' = Inl SecretKeyNotFound"
    unfolding r(3) e node_header_pw26 by (simp add: node_garbled)
  have 2: "encryptThenDecrypt nodeCrypto ?fs (sconst 0) envFilePath ''.env.enc'' envFilePath
      ''pw'' ''pw26'' = Inl SecretKeyNotFound"
    unfolding encryptThenDecrypt_def r(2) using d by simp
  have 0: "''pw26'' \<noteq> ''pw''" by simp
  from 0 1 2 show ?thesis by (intro conjI)
qed

text \<open>\<^bold>\<open>Claim C7\<close> (as amended).
  For every non-empty token and every key that is not the empty string,
  \<open>decryptString\<close> splits the token at every colon and reads the first two fields;
  further fields are ignored. It fails with the error of a malformed token exactly
  when the first field is empty or the second field is missing or empty. It makes no
  check of the hexadecimal digits: with two non-empty fields, the vector is what
  \<open>Buffer.from\<close> decodes from the first field (up to its first pair that is not two
  digits), the second field goes to the decipher as it is, and the result is the
  decipher's, its text or its error.
\<close>

theorem decryptString_format:
  assumes "encryptedText \<noteq> []" "\<not> falsy secretKey"
  shows "(decryptString C encryptedText secretKey = Inl InvalidEncryptedText) =
           (case splitOn CHR '':'' encryptedText of
              ivHex # encrypted # _ \<Rightarrow> ivHex = [] \<or> encrypted = []
            | _ \<Rightarrow> True) \<and>
         (\<forall>ivHex encrypted others.
            splitOn CHR '':'' encryptedText = ivHex # encrypted # others \<and>
            ivHex \<noteq> [] \<and> encrypted \<noteq> [] \<longrightarrow>
            decryptString C encryptedText secretKey =
              (case decipherHex C algorithm (scryptSync C secretKey salt keyLength)
                      (fromHex ivHex) encrypted of
                 Inl e \<Rightarrow> Inl (CryptoFailure e)
               | Inr decrypted \<Rightarrow> Inr decrypted))"
proof (intro conjI allI impI)
  show "(decryptString C encryptedText secretKey = Inl InvalidEncryptedText) =
           (case splitOn CHR '':'' encryptedText of
              ivHex # encrypted # _ \<Rightarrow> ivHex = [] \<or> encrypted = []
            | _ \<Rightarrow> True)"
  proof (cases "splitOn CHR '':'' encryptedText")
    case Nil
    then show ?thesis using assms by (simp add: decryptString_def)
  next
    case (Cons ivHex fields)
    show ?thesis
    proof (cases fields)
      case Nil
      then show ?thesis using Cons assms by (simp add: decryptString_def)
    next
      case (Cons encrypted others)
      have sp: "splitOn CHR '':'' encryptedText = ivHex # encrypted # others"
        using \<open>splitOn CHR '':'' encryptedText = ivHex # fields\<close> Cons by simp
      show ?thesis
      proof (cases "ivHex = [] \<or> encrypted = []")
        case True
        then show ?thesis using sp assms by (auto simp add: decryptString_def)
      next
        case False
        then have "decryptString C encryptedText secretKey \<noteq> Inl InvalidEncryptedText"
          using decryptString_never_format_error [OF assms(2) sp] by simp
        then show ?thesis using sp False by simp
      qed
    qed
  qed
next
  fix ivHex encrypted others
  assume "splitOn CHR '':'' encryptedText = ivHex # encrypted # others \<and>
            ivHex \<noteq> [] \<and> encrypted \<noteq> []"
  then show "decryptString C encryptedText secretKey =
              (case decipherHex C algorithm (scryptSync C secretKey salt keyLength)
                      (fromHex ivHex) encrypted of
                 Inl e \<Rightarrow> Inl (CryptoFailure e)
               | Inr decrypted \<Rightarrow> Inr decrypted)"
    using decryptString_fields [OF assms(2)] by blast
qed

theorem decryptString_format_witness:
  "''00000000000000000000000000000000zz:35312501010101010101010101010101:rest'' \<noteq> [] \<and>
   \<not> falsy (Str ''s3cr3t'') \<and>
   decryptString demoCrypto
     ''00000000000000000000000000000000zz:35312501010101010101010101010101:rest''
     (Str ''s3cr3t'') \<noteq> Inl InvalidEncryptedText"
proof -
  let ?t = "''00000000000000000000000000000000zz:35312501010101010101010101010101:rest''"
  have 1: "?t \<noteq> []" by simp
  have 2: "\<not> falsy (Str ''s3cr3t'')" by simp
  have 3: "splitOn CHR '':'' ?t =
      [''00000000000000000000000000000000zz'', ''35312501010101010101010101010101'', ''rest'']"
    by simp
  from decryptString_format [OF 1 2, of demoCrypto, THEN conjunct1]
  have "decryptString demoCrypto ?t (Str ''s3cr3t'') \<noteq> Inl InvalidEncryptedText"
    unfolding 3 by simp
  with 1 2 show ?thesis by (intro conjI)
qed

theorem decryptString_format_counterexample:
  "decryptString demoCrypto
     ''00000000000000000000000000000000zz:35312501010101010101010101010101''
     (Str ''s3cr3t'') = Inr ''A=1'' \<and>
   decryptString demoCrypto
     ''00000000000000000000000000000000:35312501010101010101010101010101:rest''
     (Str ''s3cr3t'') = Inr ''A=1''"
  by code_simp

text \<open>\<^bold>\<open>Claim C8.\<close>
  \<open>decryptEnv\<close> fails with the error of an invalid encrypted file when the first line
  of its input does not start with \<open>SECRET_KEY=\<close>, whatever the passphrase; and, with a
  non-empty passphrase, when the header decrypts to a text in which the pattern
  \<open>ENV_SECURE_KEY=\<close> followed by a value does not match.
\<close>

theorem decryptEnv_invalid_format:
  "(fs filePath = Some envContent \<and> splitOn NL envContent = secretKeyLine # rest \<and>
    \<not> startsWith secretKeyLine ''SECRET_KEY='' \<longrightarrow>
      decryptEnv C fs filePath outputPath passphrase = Inl SecretKeyNotFound) \<and>
   (fs filePath = Some envContent \<and> splitOn NL envContent = secretKeyLine # rest \<and>
    startsWith secretKeyLine ''SECRET_KEY='' \<and> passphrase \<noteq> [] \<and>
    decryptString C (secondField secretKeyLine)
      (Buf (scryptSync C (Str passphrase) salt keyLength)) = Inr decryptedSecretKeyLine \<and>
    matchSecretKey decryptedSecretKeyLine = None \<longrightarrow>
      decryptEnv C fs filePath outputPath passphrase = Inl SecretKeyNotFound)"
proof (intro conjI impI)
  assume "fs filePath = Some envContent \<and> splitOn NL envContent = secretKeyLine # rest \<and>
    \<not> startsWith secretKeyLine ''SECRET_KEY=''"
  then show "decryptEnv C fs filePath outputPath passphrase = Inl SecretKeyNotFound"
    by (simp add: decryptEnv_def)
next
  assume a: "fs filePath = Some envContent \<and> splitOn NL envContent = secretKeyLine # rest \<and>
    startsWith secretKeyLine ''SECRET_KEY='' \<and> passphrase \<noteq> [] \<and>
    decryptString C (secondField secretKeyLine)
      (Buf (scryptSync C (Str passphrase) salt keyLength)) = Inr decryptedSecretKeyLine \<and>
    matchSecretKey decryptedSecretKeyLine = None"
  then have "secretKeyLine \<noteq> []" by (auto simp add: startsWith_def)
  with a show "decryptEnv C fs filePath outputPath passphrase = Inl SecretKeyNotFound"
    by (simp add: decryptEnv_def deriveKeyFromPassphrase_def)
qed

theorem decryptEnv_invalid_format_witness:
  "decryptEnv demoCrypto [''.env.enc'' \<mapsto> joinLines [''A=1'', ''B=2'']]
     ''.env.enc'' ''.env'' ''pw'' = Inl SecretKeyNotFound \<and>
   decryptString demoCrypto
     (secondField ''SECRET_KEY=00000000000000000000000000000000:4a474e4e51ededededededededededed'')
     (Buf (scryptSync demoCrypto (Str ''pw'') salt keyLength)) = Inr ''hello'' \<and>
   matchSecretKey ''hello'' = None \<and>
   decryptEnv demoCrypto
     [''.env.enc'' \<mapsto> joinLines
        [''SECRET_KEY=00000000000000000000000000000000:4a474e4e51ededededededededededed'',
         ''00000000000000000000000000000000:35312501010101010101010101010101'']]
     ''.env.enc'' ''.env'' ''pw'' = Inl SecretKeyNotFound"
proof -
  let ?plain = "[''A=1'', ''B=2'']"
  let ?header = "''SECRET_KEY=00000000000000000000000000000000:4a474e4e51ededededededededededed''"
  let ?enc = "[?header, ''00000000000000000000000000000000:35312501010101010101010101010101'']"
  have p: "splitOn NL (joinLines ?plain) = ''A=1'' # [''B=2'']"
    by (simp add: NL_def)
  have e: "splitOn NL (joinLines ?enc) = ?header # tl ?enc"
    by (simp add: NL_def)
  have s: "secondField ?header = ''00000000000000000000000000000000:4a474e4e51ededededededededededed''"
    by (simp add: secondField_def)
  have d: "decryptString demoCrypto (secondField ?header)
     (Buf (scryptSync demoCrypto (Str ''pw'') salt keyLength)) = Inr ''hello''"
    unfolding s by (rule demo_header_hello)
  have 1: "decryptEnv demoCrypto [''.env.enc'' \<mapsto> joinLines ?plain]
     ''.env.enc'' ''.env'' ''pw'' = Inl SecretKeyNotFound"
    using decryptEnv_invalid_format [of "[''.env.enc'' \<mapsto> joinLines ?plain]" "''.env.enc''"
        "joinLines ?plain" "''A=1''" "[''B=2'']" demoCrypto "''.env''" "''pw''", THEN conjunct1] p
    by (simp add: startsWith_def del: joinLines.simps)
  have 2: "decryptEnv demoCrypto [''.env.enc'' \<mapsto> joinLines ?enc]
     ''.env.enc'' ''.env'' ''pw'' = Inl SecretKeyNotFound"
    using decryptEnv_invalid_format [of "[''.env.enc'' \<mapsto> joinLines ?enc]" "''.env.enc''"
        "joinLines ?enc" ?header "tl ?enc" demoCrypto "''.env''" "''pw''" "''hello''", THEN conjunct2]
      e d demo_hello_no_label
    by (simp add: startsWith_def del: joinLines.simps)
  from 1 d demo_hello_no_label 2 show ?thesis by (intro conjI)
qed

text \<open>\<^bold>\<open>Claim C9.\<close>
  \<open>deriveKeyFromPassphrase\<close> fails on the empty string with the error of an empty
  passphrase. On every other string \<open>s\<close> it returns the key that \<open>scryptSync\<close> derives
  from \<open>s\<close>, the fixed salt and the key length 32, a key of 32 bytes; it reads nothing
  else, neither the entropy nor a file, and of the crypto module only \<open>scryptSync\<close>, so
  that two calls on the same string return the same key.
\<close>

theorem deriveKeyFromPassphrase_deterministic:
  "deriveKeyFromPassphrase C [] = Inl PassphraseEmpty \<and>
   (s \<noteq> [] \<longrightarrow> deriveKeyFromPassphrase C s = Inr (scryptSync C (Str s) salt keyLength)) \<and>
   (s \<noteq> [] \<and> (\<forall>pw sl n. length (scryptSync C pw sl n) = n) \<longrightarrow>
      (\<exists>key. deriveKeyFromPassphrase C s = Inr key \<and> length key = 32)) \<and>
   (scryptSync C' = scryptSync C \<longrightarrow>
      deriveKeyFromPassphrase C' s = deriveKeyFromPassphrase C s)"
  by (simp add: deriveKeyFromPassphrase_def keyLength_def)

theorem deriveKeyFromPassphrase_deterministic_witness:
  "''pw'' \<noteq> [] \<and> (\<forall>pw sl n. length (scryptSync demoCrypto pw sl n) = n) \<and>
   deriveKeyFromPassphrase demoCrypto [] = Inl PassphraseEmpty \<and>
   deriveKeyFromPassphrase demoCrypto ''pw'' =
     Inr (scryptSync demoCrypto (Str ''pw'') salt keyLength) \<and>
   (\<exists>key. deriveKeyFromPassphrase demoCrypto ''pw'' = Inr key \<and> length key = 32)"
proof -
  have 1: "''pw'' \<noteq> []" by simp
  have 2: "\<forall>pw sl n. length (scryptSync demoCrypto pw sl n) = n"
    using demoCrypto_contract by (simp add: cryptoContract_def)
  from deriveKeyFromPassphrase_deterministic [of demoCrypto "''pw''" demoCrypto] 1 2
  show ?thesis by blast
qed

text \<open>\<^bold>\<open>Claim C10\<close> (as amended).
  \<open>getSecretKey\<close> matches the label anywhere in the text of the file, not only at the
  start of a line: it returns the rest of the line, trimmed, after the first occurrence
  of \<open>ENV_SECURE_KEY=\<close> that a value follows (a character, at least, that is not a line
  terminator); it returns nothing, and no error, when the file is absent or the text
  has no such occurrence.
\<close>

theorem getSecretKey_first_match:
  "(fs envFilePath = None \<longrightarrow> getSecretKey fs = None) \<and>
   (fs envFilePath = Some envContent \<and> (\<forall>i. \<not> keyAt envContent i) \<longrightarrow>
      getSecretKey fs = None) \<and>
   (fs envFilePath = Some envContent \<and> keyAt envContent i \<and> (\<forall>j<i. \<not> keyAt envContent j) \<longrightarrow>
      getSecretKey fs =
        Some (trim (takeWhile (\<lambda>x. \<not> lineTerminator x) (drop (i + length keyLabel) envContent))))"
proof (intro conjI impI)
  assume "fs envFilePath = None"
  then show "getSecretKey fs = None" by (simp add: getSecretKey_def)
next
  assume "fs envFilePath = Some envContent \<and> (\<forall>i. \<not> keyAt envContent i)"
  then show "getSecretKey fs = None"
    using matchSecretKey_none [of envContent] by (simp add: getSecretKey_def)
next
  assume a: "fs envFilePath = Some envContent \<and> keyAt envContent i \<and>
    (\<forall>j<i. \<not> keyAt envContent j)"
  then have m: "matchSecretKey envContent =
      Some (takeWhile (\<lambda>x. \<not> lineTerminator x) (drop (i + length keyLabel) envContent))"
    using matchSecretKey_first [of envContent i] by blast
  have "takeWhile (\<lambda>x. \<not> lineTerminator x) (drop (i + length keyLabel) envContent) \<noteq> []"
    using a by (simp add: keyAt_def)
  then show "getSecretKey fs =
      Some (trim (takeWhile (\<lambda>x. \<not> lineTerminator x) (drop (i + length keyLabel) envContent)))"
    using a m by (simp add: getSecretKey_def)
qed

theorem getSecretKey_first_match_witness:
  "getSecretKey Map.empty = None \<and>
   getSecretKey [envFilePath \<mapsto> ''A=1''] = None \<and>
   keyAt ''#ENV_SECURE_KEY=x'' 1 \<and>
   getSecretKey [envFilePath \<mapsto> ''#ENV_SECURE_KEY=x''] = Some ''x'' \<and>
   keyAt ''MY_ENV_SECURE_KEY= x '' 3 \<and>
   getSecretKey [envFilePath \<mapsto> ''MY_ENV_SECURE_KEY= x ''] = Some ''x''"
proof -
  have 1: "getSecretKey Map.empty = None"
    using getSecretKey_first_match [of Map.empty, THEN conjunct1] by simp
  have n: "\<forall>i. \<not> keyAt ''A=1'' i"
  proof
    fix i
    have "length (take (length keyLabel) (drop i ''A=1'')) < length keyLabel"
      by (simp add: keyLabel_def)
    then show "\<not> keyAt ''A=1'' i" by (auto simp add: keyAt_def startsWith_def)
  qed
  have 2: "getSecretKey [envFilePath \<mapsto> ''A=1''] = None"
    using getSecretKey_first_match [of "[envFilePath \<mapsto> ''A=1'']" "''A=1''",
        THEN conjunct2, THEN conjunct1] n
    by simp
  have k1: "keyAt ''#ENV_SECURE_KEY=x'' 1" "\<forall>j<1. \<not> keyAt ''#ENV_SECURE_KEY=x'' j"
    by (simp_all add: keyAt_def startsWith_def keyLabel_def lineTerminator_def)
  have 3: "getSecretKey [envFilePath \<mapsto> ''#ENV_SECURE_KEY=x''] = Some ''x''"
    using getSecretKey_first_match [of "[envFilePath \<mapsto> ''#ENV_SECURE_KEY=x'']"
        "''#ENV_SECURE_KEY=x''" 1, THEN conjunct2, THEN conjunct2] k1
    by (simp add: keyLabel_def lineTerminator_def trim_def whiteSpace_def)
  have k3: "keyAt ''MY_ENV_SECURE_KEY= x '' 3" "\<forall>j<3. \<not> keyAt ''MY_ENV_SECURE_KEY= x '' j"
    by (simp_all add: keyAt_def startsWith_def keyLabel_def lineTerminator_def
        All_less_Suc eval_nat_numeral)
  have 4: "getSecretKey [envFilePath \<mapsto> ''MY_ENV_SECURE_KEY= x ''] = Some ''x''"
    using getSecretKey_first_match [of "[envFilePath \<mapsto> ''MY_ENV_SECURE_KEY= x '']"
        "''MY_ENV_SECURE_KEY= x ''" 3, THEN conjunct2, THEN conjunct2] k3
    by (simp add: keyLabel_def lineTerminator_def trim_def whiteSpace_def)
  from 1 2 k1(1) 3 k3(1) 4 show ?thesis by (intro conjI)
qed

theorem getSecretKey_first_match_counterexample:
  "getSecretKey [envFilePath \<mapsto> joinLines [''ENV_SECURE_KEY='', ''ENV_SECURE_KEY=abc'']] =
     Some ''abc'' \<and>
   firstLabelSecretKey [envFilePath \<mapsto> joinLines [''ENV_SECURE_KEY='', ''ENV_SECURE_KEY=abc'']] =
     Some ''''"
  by (simp add: getSecretKey_def firstLabelSecretKey_def keyLabel_def startsWith_def
      lineTerminator_def NL_def trim_def whiteSpace_def)

end
